theory Spec2Isabelle
  imports Main
begin

section \<open>The regular expressions of Email.py\<close>

text \<open>
  Email.py uses Python's \<open>re\<close> module twice: \<open>re.compile("^[^@]+@[^@]+\.[^@]+$")\<close>
  with \<open>search\<close> (address validation) and \<open>re.split('[' + delimiters + ']\s*', ...)\<close>
  (lists of addresses and of paths). Both patterns are sequences of anchors and of
  single-character sets under \<open>+\<close> or \<open>*\<close>, so the matcher below covers exactly these
  constructs, with the meaning they have without any flag: \<open>^\<close> matches at the start of
  the subject only, \<open>$\<close> at its end and just before a line feed that is its last
  character, \<open>[^...]\<close> matches every other character (a line feed too), \<open>\s\<close> is
  one of space, \<open>\t\<close>, \<open>\n\<close>, \<open>\r\<close>, \<open>\f\<close>, \<open>\v\<close>.
\<close>

datatype cset = Lit char | AnyOf "char list" | NoneOf "char list" | Whitespace

datatype atom = Bol | Eol | One cset | Plus cset | Star cset

type_synonym regex = "atom list"

definition is_space :: "char \<Rightarrow> bool" where
  "is_space c = (c \<in> set [CHR 0x20, CHR 0x09, CHR 0x0A, CHR 0x0D, CHR 0x0C, CHR 0x0B])"

fun cset_mem :: "cset \<Rightarrow> char \<Rightarrow> bool" where
  "cset_mem (Lit d) c = (c = d)"
| "cset_mem (AnyOf ds) c = (c \<in> set ds)"
| "cset_mem (NoneOf ds) c = (c \<notin> set ds)"
| "cset_mem Whitespace c = is_space c"

text \<open>
  The remainders of the subject after a greedy repetition, the longest match first (the
  order in which a backtracking matcher tries them).
\<close>

fun star_ends :: "(char \<Rightarrow> bool) \<Rightarrow> string \<Rightarrow> string list" where
  "star_ends P [] = [[]]"
| "star_ends P (c # cs) = (if P c then star_ends P cs @ [c # cs] else [c # cs])"

fun plus_ends :: "(char \<Rightarrow> bool) \<Rightarrow> string \<Rightarrow> string list" where
  "plus_ends P [] = []"
| "plus_ends P (c # cs) = (if P c then star_ends P cs else [])"

text \<open>
  \<open>match_atom whole a rest\<close>: the remainders after matching \<open>a\<close> at the position of
  \<open>whole\<close> where \<open>rest\<close> begins (\<open>rest\<close> is a suffix of \<open>whole\<close>, so the position is
  the start exactly when the lengths agree).
\<close>

fun match_atom :: "string \<Rightarrow> atom \<Rightarrow> string \<Rightarrow> string list" where
  "match_atom whole Bol rest = (if length rest = length whole then [rest] else [])"
| "match_atom whole Eol rest = (if rest = [] \<or> rest = [CHR 0x0A] then [rest] else [])"
| "match_atom whole (One cs) [] = []"
| "match_atom whole (One cs) (c # rest) = (if cset_mem cs c then [rest] else [])"
| "match_atom whole (Plus cs) rest = plus_ends (cset_mem cs) rest"
| "match_atom whole (Star cs) rest = star_ends (cset_mem cs) rest"

fun match_here :: "string \<Rightarrow> regex \<Rightarrow> string \<Rightarrow> string list" where
  "match_here whole [] rest = [rest]"
| "match_here whole (a # as) rest = concat (map (match_here whole as) (match_atom whole a rest))"

text \<open>
  \<open>search_from whole pat pre rest\<close> scans the start positions from left to right, as
  \<open>search\<close> does: the result is the text before the first match (after \<open>pre\<close>) and
  the text after it, \<open>None\<close> when no position matches.
\<close>

fun search_from :: "string \<Rightarrow> regex \<Rightarrow> string \<Rightarrow> string \<Rightarrow> (string \<times> string) option" where
  "search_from whole pat pre [] =
     (case match_here whole pat [] of [] \<Rightarrow> None | r # _ \<Rightarrow> Some (pre, r))"
| "search_from whole pat pre (c # cs) =
     (case match_here whole pat (c # cs) of
        [] \<Rightarrow> search_from whole pat (pre @ [c]) cs
      | r # _ \<Rightarrow> Some (pre, r))"

definition re_search :: "regex \<Rightarrow> string \<Rightarrow> (string \<times> string) option" where
  "re_search pat s = search_from s pat [] s"

text \<open>
  \<open>re.split\<close> of Python 2: the pieces between the successive matches; a match of
  length zero splits nothing, the scan moves on by one character.
  \<open>cur\<close> is the text scanned since the last split, \<open>s\<close> the text still to scan.
\<close>

function re_split_from :: "string \<Rightarrow> regex \<Rightarrow> string \<Rightarrow> string \<Rightarrow> string list" where
  "re_split_from whole pat cur s =
     (case search_from whole pat [] s of
        None \<Rightarrow> [cur @ s]
      | Some (pre, rest) \<Rightarrow>
          if length pre + length rest < length s
          then (cur @ pre) # re_split_from whole pat [] rest
          else (case drop (length pre) s of
                  [] \<Rightarrow> [cur @ s]
                | c # cs \<Rightarrow> re_split_from whole pat (cur @ pre @ [c]) cs))"
  by pat_completeness auto
termination
proof (relation "measure (\<lambda>(whole, pat, cur, s). length s)", goal_cases)
  case 1
  show ?case by simp
next
  case (2 whole pat cur s x2 x y)
  then show ?case by simp
next
  case (3 whole pat cur s x2 x y c cs)
  then have "length (drop (length x) s) = Suc (length cs)" by simp
  then show ?case by simp
qed

definition re_split :: "regex \<Rightarrow> string \<Rightarrow> string list" where
  "re_split pat s = re_split_from s pat [] s"

text \<open>\<open>s.strip(chars)\<close>: the characters of \<open>chars\<close> removed from both ends.\<close>

definition strip :: "string \<Rightarrow> string \<Rightarrow> string" where
  "strip chars s =
     rev (dropWhile (\<lambda>c. c \<in> set chars) (rev (dropWhile (\<lambda>c. c \<in> set chars) s)))"

section \<open>The message object\<close>

text \<open>
  Every \<open>raise\<close> of Email.py raises a plain \<open>Exception\<close> with its own text; one
  constructor stands for each of them, under the name the specification gives to the
  error, and \<open>message\<close> is the text. The other constructors are the errors of the
  interpreter and of the libraries that \<open>send\<close> can meet: a missing attribute, an
  unpacking of too few values, a file that cannot be read, an error of the SMTP client.
\<close>

datatype error =
    MissingBody
  | MissingRecipient
  | AttachmentNotFound string
  | AttachmentNotAFile string
  | InvalidAddress string string
  | AttributeError string
  | ValueError
  | IOError string
  | SMTPError string

fun message :: "error \<Rightarrow> string" where
  "message MissingBody = ''Error! Must specify at least one body type (HTML or Text)''"
| "message MissingRecipient = ''Must specify at least one recipient''"
| "message (AttachmentNotFound fname) =
     ''File '' @ [CHR 0x27] @ fname @ [CHR 0x27] @ '' does not exist.  Not attaching to email.''"
| "message (AttachmentNotAFile fname) =
     ''Attachment '' @ [CHR 0x27] @ fname @ [CHR 0x27] @ '' is not a file.  Not attaching to email.''"
| "message (InvalidAddress kind address) =
     ''Invalid '' @ kind @ '' email address '' @ [CHR 0x27] @ address @ [CHR 0x27]"
| "message (AttributeError name) =
     ''Email instance has no attribute '' @ [CHR 0x27] @ name @ [CHR 0x27]"
| "message ValueError = ''need more than 1 value to unpack''"
| "message (IOError text) = text"
| "message (SMTPError text) = text"

text \<open>
  The fields of an \<open>Email\<close> object. \<open>from\<close> is \<open>None\<close> as long as the attribute
  \<open>_from\<close> does not exist: \<open>__init__\<close> does not assign it, only \<open>setFrom\<close> does.
  The three fields that \<open>__init__\<close> sets to literals and that nothing assigns again
  (\<open>_addressDelimiters\<close>, \<open>_attachmentDelimiters\<close>, \<open>_reEmail\<close>) are constants.
\<close>

record email =
  textBody :: "string option"
  hostname :: string
  htmlBody :: "string option"
  subject :: string
  smtpServer :: string
  smtpPort :: int
  username :: string
  password :: string
  debugLevel :: int
  replyTo :: "string option"
  "from" :: "string option"
  to :: "string list"
  cc :: "string list"
  bcc :: "string list"
  attach :: "(string \<times> string option) list"

definition addressDelimiters :: string where
  "addressDelimiters = [CHR '','', CHR 0x0A, CHR 0x0D]"

definition attachmentDelimiters :: string where
  "attachmentDelimiters = [CHR 0x0A, CHR 0x0D]"

definition reEmail :: regex where
  "reEmail = [Bol, Plus (NoneOf ''@''), One (Lit (CHR ''@'')), Plus (NoneOf ''@''),
              One (Lit (CHR ''.'')), Plus (NoneOf ''@''), Eol]"

text \<open>The pattern \<open>'[' + delimiters + ']\s*'\<close> of \<open>addRecipients\<close> and \<open>addAttachments\<close>.\<close>

definition delimiter_pattern :: "string \<Rightarrow> regex" where
  "delimiter_pattern delimiters = [One (AnyOf delimiters), Star Whitespace]"

definition clearRecipients :: "email \<Rightarrow> email" where
  "clearRecipients m = m\<lparr>to := [], cc := [], bcc := []\<rparr>"

definition clearAttachments :: "email \<Rightarrow> email" where
  "clearAttachments m = m\<lparr>attach := []\<rparr>"

definition Email_init :: "string \<Rightarrow> int \<Rightarrow> string \<Rightarrow> string \<Rightarrow> string \<Rightarrow> int \<Rightarrow> email" where
  "Email_init smtpServer' smtpPort' hostname' username' password' debugLevel' =
     clearAttachments (clearRecipients
       \<lparr>textBody = None, hostname = hostname', htmlBody = None, subject = [],
        smtpServer = smtpServer', smtpPort = smtpPort', username = username',
        password = password', debugLevel = debugLevel', replyTo = None, from = None,
        to = [], cc = [], bcc = [], attach = []\<rparr>)"

definition validateEmailAddress :: "string \<Rightarrow> bool" where
  "validateEmailAddress address = (if re_search reEmail address = None then False else True)"

text \<open>
  A method that can raise returns the error or the result together with the object as
  the call leaves it: what was assigned before a \<open>raise\<close> stays assigned.
\<close>

definition setSubject :: "email \<Rightarrow> string \<Rightarrow> email" where
  "setSubject m subject' = m\<lparr>subject := subject'\<rparr>"

definition setFrom :: "email \<Rightarrow> string \<Rightarrow> (error + unit) \<times> email" where
  "setFrom m address =
     (if \<not> validateEmailAddress address then (Inl (InvalidAddress ''FROM'' address), m)
      else (Inr (), m\<lparr>from := Some address\<rparr>))"

definition addRecipient :: "email \<Rightarrow> string \<Rightarrow> string \<Rightarrow> (error + unit) \<times> email" where
  "addRecipient m address type =
     (if \<not> validateEmailAddress address then (Inl (InvalidAddress type address), m)
      else if type = ''CC'' then (Inr (), m\<lparr>cc := cc m @ [address]\<rparr>)
      else if type = ''BCC'' then (Inr (), m\<lparr>bcc := bcc m @ [address]\<rparr>)
      else (Inr (), m\<lparr>to := to m @ [address]\<rparr>))"

text \<open>The \<open>for\<close> loop of \<open>addRecipients\<close>; an error ends it.\<close>

fun addRecipients_loop :: "email \<Rightarrow> string list \<Rightarrow> string option \<Rightarrow> (error + unit) \<times> email" where
  "addRecipients_loop m [] type = (Inr (), m)"
| "addRecipients_loop m (address # rest) type =
     (case (case type of Some t \<Rightarrow> addRecipient m address t
                       | None \<Rightarrow> addRecipient m address ''TO'') of
        (Inl e, m') \<Rightarrow> (Inl e, m')
      | (Inr _, m') \<Rightarrow> addRecipients_loop m' rest type)"

definition addRecipients :: "email \<Rightarrow> string \<Rightarrow> string option \<Rightarrow> (error + unit) \<times> email" where
  "addRecipients m addressList type =
     addRecipients_loop m
       (re_split (delimiter_pattern addressDelimiters) (strip addressDelimiters addressList))
       type"

definition setTextBody :: "email \<Rightarrow> string \<Rightarrow> email" where
  "setTextBody m body = m\<lparr>textBody := Some body\<rparr>"

definition setHtmlBody :: "email \<Rightarrow> string \<Rightarrow> email" where
  "setHtmlBody m body = m\<lparr>htmlBody := Some body\<rparr>"

definition setReplyTo :: "email \<Rightarrow> string \<Rightarrow> (error + unit) \<times> email" where
  "setReplyTo m address =
     (if \<not> validateEmailAddress address then (Inl (InvalidAddress ''REPLY-TO'' address), m)
      else (Inr (), m\<lparr>replyTo := Some address\<rparr>))"

text \<open>\<open>filepath\<close> is \<open>None\<close> for Python's \<open>None\<close>, \<open>attachname\<close> as well.\<close>

definition addAttachment :: "email \<Rightarrow> string option \<Rightarrow> string option \<Rightarrow> email" where
  "addAttachment m filepath attachname =
     (case filepath of
        None \<Rightarrow> m
      | Some path \<Rightarrow> m\<lparr>attach := attach m @ [(path, attachname)]\<rparr>)"

definition addAttachments :: "email \<Rightarrow> string \<Rightarrow> email" where
  "addAttachments m filepathList =
     foldl (\<lambda>m' thisFile. addAttachment m' (Some thisFile) None) m
       (re_split (delimiter_pattern attachmentDelimiters)
          (strip attachmentDelimiters filepathList))"

section \<open>MIME parts\<close>

text \<open>
  A part as the \<open>email\<close> package builds it, reduced to what Email.py sets: the content
  type, the content transfer encoding, the payload before that encoding, the headers
  added by item assignment and by \<open>add_header\<close> (name, value, parameters), the
  sub-parts of a multipart container, and the preamble.
\<close>

datatype encoding = SevenBit | EightBit | Base64

type_synonym header = "string \<times> string \<times> (string \<times> string) list"

datatype mime =
  Mime (maintype: string) (subtype: string) (cte: "encoding option")
       (payload: "string option") (headers: "header list") (parts: "mime list")
       (preamble: "string option")

definition MIMEBase :: "string \<Rightarrow> string \<Rightarrow> mime" where
  "MIMEBase maintype' subtype' = Mime maintype' subtype' None None [] [] None"

definition MIMEMultipart :: "string \<Rightarrow> mime" where
  "MIMEMultipart subtype' = Mime ''multipart'' subtype' None None [] [] None"

text \<open>
  \<open>MIMEText\<close> sets the payload with the charset us-ascii, which leaves it as it is and
  declares it 7bit, or 8bit when a byte is not ASCII.
\<close>

definition encode_7or8bit :: "string option \<Rightarrow> encoding" where
  "encode_7or8bit text =
     (case text of
        None \<Rightarrow> SevenBit
      | Some t \<Rightarrow> if list_all (\<lambda>c. (of_char c :: nat) < 128) t then SevenBit else EightBit)"

definition MIMEText :: "string option \<Rightarrow> string \<Rightarrow> mime" where
  "MIMEText text subtype' =
     Mime ''text'' subtype' (Some (encode_7or8bit text)) text [] [] None"

text \<open>\<open>MIMEImage\<close> and \<open>MIMEAudio\<close> encode their data with Base64 themselves.\<close>

definition MIMEImage :: "string \<Rightarrow> string \<Rightarrow> mime" where
  "MIMEImage data subtype' = Mime ''image'' subtype' (Some Base64) (Some data) [] [] None"

definition MIMEAudio :: "string \<Rightarrow> string \<Rightarrow> mime" where
  "MIMEAudio data subtype' = Mime ''audio'' subtype' (Some Base64) (Some data) [] [] None"

fun set_payload :: "mime \<Rightarrow> string \<Rightarrow> mime" where
  "set_payload (Mime mt st e p hs ps pre) data = Mime mt st e (Some data) hs ps pre"

fun encode_base64 :: "mime \<Rightarrow> mime" where
  "encode_base64 (Mime mt st e p hs ps pre) = Mime mt st (Some Base64) p hs ps pre"

fun add_header :: "mime \<Rightarrow> string \<Rightarrow> string \<Rightarrow> (string \<times> string) list \<Rightarrow> mime" where
  "add_header (Mime mt st e p hs ps pre) name v params =
     Mime mt st e p (hs @ [(name, v, params)]) ps pre"

text \<open>\<open>msg[name] = v\<close>\<close>

definition set_item :: "mime \<Rightarrow> string \<Rightarrow> string \<Rightarrow> mime" where
  "set_item msg name v = add_header msg name v []"

text \<open>\<open>msg.attach(part)\<close>\<close>

fun mime_attach :: "mime \<Rightarrow> mime \<Rightarrow> mime" where
  "mime_attach (Mime mt st e p hs ps pre) part = Mime mt st e p hs (ps @ [part]) pre"

fun set_preamble :: "mime \<Rightarrow> string \<Rightarrow> mime" where
  "set_preamble (Mime mt st e p hs ps pre) text = Mime mt st e p hs ps (Some text)"

text \<open>\<open>sep.join(xs)\<close>\<close>

fun join :: "string \<Rightarrow> string list \<Rightarrow> string" where
  "join sep [] = []"
| "join sep [x] = x"
| "join sep (x # y # ys) = x @ sep @ join sep (y # ys)"

text \<open>
  \<open>ctype.split('/', 1)\<close> unpacked into two names: \<open>None\<close> when there is no slash
  (the unpacking raises \<open>ValueError\<close>).
\<close>

fun split_once :: "char \<Rightarrow> string \<Rightarrow> (string \<times> string) option" where
  "split_once d [] = None"
| "split_once d (c # cs) =
     (if c = d then Some ([], cs)
      else (case split_once d cs of None \<Rightarrow> None | Some (a, b) \<Rightarrow> Some (c # a, b)))"

text \<open>\<open>os.path.basename\<close> (POSIX): what follows the last slash.\<close>

definition basename :: "string \<Rightarrow> string" where
  "basename path = rev (takeWhile (\<lambda>c. c \<noteq> CHR ''/'') (rev path))"

section \<open>The file system and the SMTP client\<close>

text \<open>
  What \<open>send\<close> asks of the outside is recorded, in order, as a list of events. The
  answers come from an environment: the file system and the table of
  \<open>mimetypes.guess_type\<close> as functions of the path, the serialisation of a message
  (\<open>as_string\<close>), and the SMTP client, whose answer to a call may depend on all the
  events before it.
\<close>

datatype event =
    Exists string
  | IsFile string
  | Open string bool
  | SMTP string int string int
  | SMTP_SSL string int string
  | SetDebuglevel int
  | Ehlo
  | HasExtn string
  | StartTLS
  | Login string string
  | Sendmail string "string list" string
  | Quit

fun is_smtp :: "event \<Rightarrow> bool" where
  "is_smtp (Exists p) = False"
| "is_smtp (IsFile p) = False"
| "is_smtp (Open p b) = False"
| "is_smtp e = True"

type_synonym refused = "(string \<times> int \<times> string) list"

record env =
  path_exists :: "string \<Rightarrow> bool"
  path_isfile :: "string \<Rightarrow> bool"
  guess_type :: "string \<Rightarrow> string option \<times> string option"
  read_file :: "string \<Rightarrow> bool \<Rightarrow> string + string"
  as_string :: "mime \<Rightarrow> string"
  smtp_raises :: "event list \<Rightarrow> event \<Rightarrow> string option"
  has_extn :: "event list \<Rightarrow> string \<Rightarrow> bool"
  sendmail_result :: "event list \<Rightarrow> string \<Rightarrow> string list \<Rightarrow> string \<Rightarrow> refused"

type_synonym 'a io = "event list \<Rightarrow> (error + 'a) \<times> event list"

definition io_return :: "'a \<Rightarrow> 'a io" where
  "io_return x tr = (Inr x, tr)"

definition io_raise :: "error \<Rightarrow> 'a io" where
  "io_raise e tr = (Inl e, tr)"

definition io_bind :: "'a io \<Rightarrow> ('a \<Rightarrow> 'b io) \<Rightarrow> 'b io" where
  "io_bind f g tr = (case f tr of (Inl e, tr') \<Rightarrow> (Inl e, tr') | (Inr x, tr') \<Rightarrow> g x tr')"

definition os_path_exists :: "env \<Rightarrow> string \<Rightarrow> bool io" where
  "os_path_exists world path tr = (Inr (path_exists world path), tr @ [Exists path])"

definition os_path_isfile :: "env \<Rightarrow> string \<Rightarrow> bool io" where
  "os_path_isfile world path tr = (Inr (path_isfile world path), tr @ [IsFile path])"

text \<open>\<open>fp = open(fname, mode); fp.read(); fp.close()\<close>\<close>

definition open_read :: "env \<Rightarrow> string \<Rightarrow> bool \<Rightarrow> string io" where
  "open_read world path binary tr =
     (case read_file world path binary of
        Inl text \<Rightarrow> (Inl (IOError text), tr @ [Open path binary])
      | Inr data \<Rightarrow> (Inr data, tr @ [Open path binary]))"

definition smtp_call :: "env \<Rightarrow> event \<Rightarrow> unit io" where
  "smtp_call world ev tr =
     (case smtp_raises world tr ev of
        Some text \<Rightarrow> (Inl (SMTPError text), tr @ [ev])
      | None \<Rightarrow> (Inr (), tr @ [ev]))"

definition smtp_has_extn :: "env \<Rightarrow> string \<Rightarrow> bool io" where
  "smtp_has_extn world name tr = (Inr (has_extn world tr name), tr @ [HasExtn name])"

definition smtp_sendmail :: "env \<Rightarrow> string \<Rightarrow> string list \<Rightarrow> string \<Rightarrow> refused io" where
  "smtp_sendmail world sender rcpts msg tr =
     (case smtp_raises world tr (Sendmail sender rcpts msg) of
        Some text \<Rightarrow> (Inl (SMTPError text), tr @ [Sendmail sender rcpts msg])
      | None \<Rightarrow> (Inr (sendmail_result world tr sender rcpts msg),
                 tr @ [Sendmail sender rcpts msg]))"

section \<open>send\<close>

text \<open>
  The message part (lines 68 to 76). The checks before it leave the last branch to the
  case where both bodies are set.
\<close>

definition make_body :: "email \<Rightarrow> mime" where
  "make_body m =
     (if textBody m \<noteq> None \<and> htmlBody m = None then MIMEText (textBody m) ''plain''
      else if textBody m = None \<and> htmlBody m \<noteq> None then MIMEText (htmlBody m) ''html''
      else mime_attach (mime_attach (MIMEMultipart ''alternative'')
                          (MIMEText (textBody m) ''plain''))
             (MIMEText (htmlBody m) ''html''))"

text \<open>
  The body of the loop over the attachments (lines 84 to 120), in three steps: the content
  type (lines 91 to 94), the part that holds the file (lines 96 to 114), and the checks
  before them with the header after them.
\<close>

definition guess_ctype :: "env \<Rightarrow> string \<Rightarrow> string" where
  "guess_ctype world fname =
     (case guess_type world fname of
        (Some ctype, None) \<Rightarrow> ctype
      | _ \<Rightarrow> ''application/octet-stream'')"

definition read_part :: "env \<Rightarrow> string \<Rightarrow> string \<Rightarrow> string \<Rightarrow> mime io" where
  "read_part world fname maintype' subtype' =
     (if maintype' = ''text'' then
        io_bind (open_read world fname False) (\<lambda>data.
          io_return (MIMEText (Some data) subtype'))
      else if maintype' = ''image'' then
        io_bind (open_read world fname True) (\<lambda>data.
          io_return (MIMEImage data subtype'))
      else if maintype' = ''audio'' then
        io_bind (open_read world fname True) (\<lambda>data.
          io_return (MIMEAudio data subtype'))
      else
        io_bind (open_read world fname True) (\<lambda>data.
          io_return (encode_base64 (set_payload (MIMEBase maintype' subtype') data))))"

definition make_attachment :: "env \<Rightarrow> string \<Rightarrow> string option \<Rightarrow> mime io" where
  "make_attachment world fname attachname =
     io_bind (os_path_exists world fname) (\<lambda>found.
       if \<not> found then io_raise (AttachmentNotFound fname)
       else io_bind (os_path_isfile world fname) (\<lambda>regular.
         if \<not> regular then io_raise (AttachmentNotAFile fname)
         else
           case split_once (CHR ''/'') (guess_ctype world fname) of
             None \<Rightarrow> io_raise ValueError
           | Some (maintype', subtype') \<Rightarrow>
               io_bind (read_part world fname maintype' subtype') (\<lambda>part.
                 let filename = (case attachname of
                                   None \<Rightarrow> basename fname
                                 | Some name \<Rightarrow> name)
                 in io_return (add_header part ''Content-Disposition'' ''attachment''
                                 [(''filename'', filename)]))))"

fun attach_files :: "env \<Rightarrow> (string \<times> string option) list \<Rightarrow> mime \<Rightarrow> mime io" where
  "attach_files world [] msg = io_return msg"
| "attach_files world ((fname, attachname) # rest) msg =
     io_bind (make_attachment world fname attachname) (\<lambda>part.
       attach_files world rest (mime_attach msg part))"

text \<open>Reading \<open>self._from\<close>: an \<open>AttributeError\<close> while the attribute does not exist.\<close>

definition get_from :: "email \<Rightarrow> string io" where
  "get_from m =
     (case from m of None \<Rightarrow> io_raise (AttributeError ''_from'') | Some a \<Rightarrow> io_return a)"

text \<open>Lines 62 to 132: the checks, the message part, the attachments, the header.\<close>

definition compose :: "env \<Rightarrow> email \<Rightarrow> mime io" where
  "compose world m =
     (if textBody m = None \<and> htmlBody m = None then io_raise MissingBody
      else if length (to m) = 0 then io_raise MissingRecipient
      else
        let msg = make_body m;
            msg = (if length (attach m) \<noteq> 0 then mime_attach (MIMEMultipart ''mixed'') msg
                   else msg)
        in io_bind (attach_files world (attach m) msg) (\<lambda>msg.
             let msg = set_item msg ''Subject'' (subject m)
             in io_bind (get_from m) (\<lambda>sender.
                  let msg = set_item msg ''From'' sender;
                      msg = set_item msg ''To'' (join '', '' (to m));
                      msg = set_item msg ''CC'' (join '', '' (cc m));
                      msg = set_item msg ''BCC'' (join '', '' (bcc m));
                      msg = (case replyTo m of
                               None \<Rightarrow> msg
                             | Some a \<Rightarrow> set_item msg ''reply-to'' a)
                  in io_return (set_preamble msg
                       ''You need a MIME enabled mail reader to see this message''))))"

text \<open>
  Lines 136 to 159. When the first connection fails, \<open>server\<close> is not bound and the
  \<open>quit\<close> of the \<open>finally\<close> clause raises a \<open>NameError\<close> that is dropped; after it
  has succeeded, \<open>quit\<close> is called whatever happened, and what it raises is dropped.
\<close>

definition transmit :: "env \<Rightarrow> email \<Rightarrow> string list \<Rightarrow> string \<Rightarrow> refused io" where
  "transmit world m allRecipients msg tr =
     (case smtp_call world (SMTP (smtpServer m) (smtpPort m) (hostname m) 5) tr of
        (Inl e, tr1) \<Rightarrow> (Inl e, tr1)
      | (Inr _, tr1) \<Rightarrow>
          (case
             io_bind (smtp_call world (SetDebuglevel (debugLevel m))) (\<lambda>_.
             io_bind (smtp_call world Ehlo) (\<lambda>_.
             io_bind
               (if username m \<noteq> [] then
                  io_bind (smtp_has_extn world ''STARTTLS'') (\<lambda>tls.
                  io_bind
                    (if tls then smtp_call world StartTLS
                     else
                       io_bind (smtp_call world Quit) (\<lambda>_.
                       io_bind (smtp_call world
                                  (SMTP_SSL (smtpServer m) (smtpPort m) (hostname m))) (\<lambda>_.
                       smtp_call world (SetDebuglevel (debugLevel m)))))
                    (\<lambda>_.
                  io_bind (smtp_call world Ehlo) (\<lambda>_.
                  smtp_call world (Login (username m) (password m)))))
                else io_return ())
               (\<lambda>_.
             io_bind (get_from m) (\<lambda>sender.
             smtp_sendmail world sender allRecipients msg)))) tr1
           of (result, tr2) \<Rightarrow> (result, tr2 @ [Quit])))"

definition send :: "env \<Rightarrow> email \<Rightarrow> (error + refused) \<times> event list" where
  "send world m =
     io_bind (compose world m) (\<lambda>msg.
       transmit world m (to m @ cc m @ bcc m) (as_string world msg)) []"

section \<open>The pattern of the specification\<close>

text \<open>
  The specification calls an address valid when it has the form of non-\<open>@\<close> characters,
  \<open>@\<close>, non-\<open>@\<close> characters, a dot, non-\<open>@\<close> characters, each run with at least
  one character as the \<open>+\<close> of the pattern says. This is that form, written
  without the matcher.
\<close>

definition matches_pattern :: "string \<Rightarrow> bool" where
  "matches_pattern s =
     (\<exists>a b c. s = a @ ''@'' @ b @ ''.'' @ c \<and> a \<noteq> [] \<and> b \<noteq> [] \<and> c \<noteq> [] \<and>
        CHR ''@'' \<notin> set a \<and> CHR ''@'' \<notin> set b \<and> CHR ''@'' \<notin> set c)"

section \<open>Lists of recipients\<close>

text \<open>
  The object after the addresses \<open>xs\<close> have been appended, in order, to the list that
  \<open>kind\<close> selects in \<open>addRecipient\<close>.
\<close>

definition with_recipients :: "email \<Rightarrow> string \<Rightarrow> string list \<Rightarrow> email" where
  "with_recipients m kind xs =
     (if kind = ''CC'' then m\<lparr>cc := cc m @ xs\<rparr>
      else if kind = ''BCC'' then m\<lparr>bcc := bcc m @ xs\<rparr>
      else m\<lparr>to := to m @ xs\<rparr>)"

text \<open>The kind that \<open>addRecipients\<close> passes on: \<open>TO\<close> when it was given none.\<close>

definition kind_of :: "string option \<Rightarrow> string" where
  "kind_of type = (case type of None \<Rightarrow> ''TO'' | Some t \<Rightarrow> t)"

text \<open>
  A list of addresses as a caller writes it: an address, then separators each followed by
  an address. A separator is one delimiter followed by any whitespace; an address of
  such a list is valid, holds no delimiter and does not begin with whitespace.
\<close>

fun address_list :: "string \<Rightarrow> (string \<times> string) list \<Rightarrow> string" where
  "address_list a [] = a"
| "address_list a ((sep, b) # ps) = a @ sep @ address_list b ps"

fun separator :: "string \<Rightarrow> bool" where
  "separator [] = False"
| "separator (d # ws) = (d \<in> set addressDelimiters \<and> list_all is_space ws)"

definition plain_address :: "string \<Rightarrow> bool" where
  "plain_address a =
     (validateEmailAddress a \<and> list_all (\<lambda>c. c \<notin> set addressDelimiters) a \<and>
      \<not> is_space (hd a))"

definition example_email :: email where
  "example_email = Email_init ''smtp.example.com'' 25 [] [] [] 0"

text \<open>
  The fragments of a list, read from left to right: a delimiter ends the fragment and is
  dropped with the whitespace that follows it; every other character belongs to the
  fragment. \<open>cur\<close> is the fragment read so far.
\<close>

function fragments :: "string \<Rightarrow> string \<Rightarrow> string \<Rightarrow> string list" where
  "fragments ds cur [] = [cur]"
| "fragments ds cur (c # cs) =
     (if c \<in> set ds then cur # fragments ds [] (dropWhile is_space cs)
      else fragments ds (cur @ [c]) cs)"
  by pat_completeness auto
termination
  by (relation "measure (\<lambda>(ds, cur, s). length s)")
     (auto simp: length_dropWhile_le less_Suc_eq_le)

section \<open>Composed messages and example objects\<close>

definition example_env :: env where
  "example_env =
     \<lparr>path_exists = (\<lambda>p. p = ''/tmp/report.bin'' \<or> p = ''/tmp''),
      path_isfile = (\<lambda>p. p = ''/tmp/report.bin''),
      guess_type = (\<lambda>p. (None, None)),
      read_file = (\<lambda>p binary. Inr ''data''),
      as_string = (\<lambda>msg. ''text of the message''),
      smtp_raises = (\<lambda>tr ev. None),
      has_extn = (\<lambda>tr name. True),
      sendmail_result = (\<lambda>tr sender rcpts msg. [])\<rparr>"

definition ready_email :: email where
  "ready_email = (setTextBody example_email ''hello'')\<lparr>to := [''a@b.com'']\<rparr>"


definition text_email :: email where
  "text_email = ready_email\<lparr>from := Some ''x@y.z''\<rparr>"

definition html_email :: email where
  "html_email = text_email\<lparr>textBody := None, htmlBody := Some ''<b>hello</b>''\<rparr>"

definition both_email :: email where
  "both_email = text_email\<lparr>htmlBody := Some ''<b>hello</b>''\<rparr>"

definition header_of_examples :: "header list" where
  "header_of_examples =
     [(''Subject'', [], []), (''From'', ''x@y.z'', []), (''To'', ''a@b.com'', []),
      (''CC'', [], []), (''BCC'', [], [])]"

definition text_message :: mime where
  "text_message =
     Mime ''text'' ''plain'' (Some SevenBit) (Some ''hello'') header_of_examples []
       (Some ''You need a MIME enabled mail reader to see this message'')"

definition html_message :: mime where
  "html_message =
     Mime ''text'' ''html'' (Some SevenBit) (Some ''<b>hello</b>'') header_of_examples []
       (Some ''You need a MIME enabled mail reader to see this message'')"

definition both_message :: mime where
  "both_message =
     Mime ''multipart'' ''alternative'' None None header_of_examples
       [Mime ''text'' ''plain'' (Some SevenBit) (Some ''hello'') [] [] None,
        Mime ''text'' ''html'' (Some SevenBit) (Some ''<b>hello</b>'') [] [] None]
       (Some ''You need a MIME enabled mail reader to see this message'')"

definition attached_email :: email where
  "attached_email =
     both_email\<lparr>attach := [(''/tmp/report.bin'', None), (''/tmp/report.bin'', Some ''r.dat'')]\<rparr>"

definition attached_message :: mime where
  "attached_message =
     Mime ''multipart'' ''mixed'' None None header_of_examples
       [Mime ''multipart'' ''alternative'' None None []
          [Mime ''text'' ''plain'' (Some SevenBit) (Some ''hello'') [] [] None,
           Mime ''text'' ''html'' (Some SevenBit) (Some ''<b>hello</b>'') [] [] None]
          None,
        Mime ''application'' ''octet-stream'' (Some Base64) (Some ''data'')
          [(''Content-Disposition'', ''attachment'', [(''filename'', ''report.bin'')])] [] None,
        Mime ''application'' ''octet-stream'' (Some Base64) (Some ''data'')
          [(''Content-Disposition'', ''attachment'', [(''filename'', ''r.dat'')])] [] None]
       (Some ''You need a MIME enabled mail reader to see this message'')"

definition attachment_events :: "event list" where
  "attachment_events =
     [Exists ''/tmp/report.bin'', IsFile ''/tmp/report.bin'', Open ''/tmp/report.bin'' True,
      Exists ''/tmp/report.bin'', IsFile ''/tmp/report.bin'', Open ''/tmp/report.bin'' True]"

text \<open>
  An attachment assembles when the body of the loop makes a part of it: the path exists,
  is a regular file and can be read, and the guessed type has a slash.
\<close>

definition assembles :: "env \<Rightarrow> string \<times> string option \<Rightarrow> bool" where
  "assembles world a =
     (case fst (make_attachment world (fst a) (snd a) []) of Inl e \<Rightarrow> False | Inr part \<Rightarrow> True)"

definition part_of :: "env \<Rightarrow> string \<times> string option \<Rightarrow> mime" where
  "part_of world a = projr (fst (make_attachment world (fst a) (snd a) []))"

text \<open>The message that the loop over the attachments starts from (lines 68 to 82).\<close>

definition wrapped_body :: "email \<Rightarrow> mime" where
  "wrapped_body m =
     (if length (attach m) \<noteq> 0 then mime_attach (MIMEMultipart ''mixed'') (make_body m)
      else make_body m)"

text \<open>
  The body of a composed message: the message itself when there is no attachment, the
  first part of the outer container otherwise (lines 79 to 82 wrap it then).
\<close>

definition body_part :: "email \<Rightarrow> mime \<Rightarrow> mime" where
  "body_part m msg = (if attach m = [] then msg else hd (parts msg))"

section \<open>Address validation\<close>

lemma star_ends_iff: "r \<in> set (star_ends P s) \<longleftrightarrow> (\<exists>a. s = a @ r \<and> (\<forall>c \<in> set a. P c))"
proof (induction s)
  case Nil
  then show ?case by auto
next
  case (Cons x s)
  show ?case
  proof (cases "P x")
    case True
    have "(\<exists>a. x # s = a @ r \<and> (\<forall>c \<in> set a. P c)) \<longleftrightarrow>
          (r = x # s \<or> (\<exists>a. s = a @ r \<and> (\<forall>c \<in> set a. P c)))"
      using True by (auto simp: Cons_eq_append_conv)
    with True Cons show ?thesis by auto
  next
    case False
    have "(\<exists>a. x # s = a @ r \<and> (\<forall>c \<in> set a. P c)) \<longleftrightarrow> r = x # s"
      using False by (auto simp: Cons_eq_append_conv)
    with False show ?thesis by auto
  qed
qed

lemma plus_ends_iff:
  "r \<in> set (plus_ends P s) \<longleftrightarrow> (\<exists>a. a \<noteq> [] \<and> s = a @ r \<and> (\<forall>c \<in> set a. P c))"
proof (cases s)
  case Nil
  then show ?thesis by simp
next
  case (Cons x xs)
  show ?thesis
  proof
    assume "r \<in> set (plus_ends P s)"
    then have px: "P x" and "r \<in> set (star_ends P xs)"
      using Cons by (auto split: if_splits)
    then obtain a where "xs = a @ r" "\<forall>c \<in> set a. P c"
      by (auto simp: star_ends_iff)
    with px Cons have "x # a \<noteq> [] \<and> s = (x # a) @ r \<and> (\<forall>c \<in> set (x # a). P c)" by simp
    then show "\<exists>a. a \<noteq> [] \<and> s = a @ r \<and> (\<forall>c \<in> set a. P c)" by blast
  next
    assume "\<exists>a. a \<noteq> [] \<and> s = a @ r \<and> (\<forall>c \<in> set a. P c)"
    then obtain a where a: "a \<noteq> []" "s = a @ r" "\<forall>c \<in> set a. P c" by blast
    then obtain y ys where ys: "a = y # ys" by (cases a) auto
    with a Cons have "P x" "xs = ys @ r" "\<forall>c \<in> set ys. P c" by auto
    then show "r \<in> set (plus_ends P s)"
      using Cons by (auto simp: star_ends_iff)
  qed
qed

lemma match_here_Cons_iff:
  "r \<in> set (match_here w (a # as) s) \<longleftrightarrow>
     (\<exists>mid. mid \<in> set (match_atom w a s) \<and> r \<in> set (match_here w as mid))"
  by auto

lemma match_Bol_iff: "mid \<in> set (match_atom w Bol s) \<longleftrightarrow> length s = length w \<and> mid = s"
  by auto

lemma match_Eol_iff:
  "mid \<in> set (match_atom w Eol s) \<longleftrightarrow> mid = s \<and> (s = [] \<or> s = [CHR 0x0A])"
  by auto

lemma match_One_iff:
  "mid \<in> set (match_atom w (One cs) s) \<longleftrightarrow> (\<exists>c. s = c # mid \<and> cset_mem cs c)"
  by (cases s) auto

lemma match_Plus_iff:
  "mid \<in> set (match_atom w (Plus cs) s) \<longleftrightarrow>
     (\<exists>a. a \<noteq> [] \<and> s = a @ mid \<and> (\<forall>c \<in> set a. cset_mem cs c))"
  by (simp add: plus_ends_iff)

lemma match_Star_iff:
  "mid \<in> set (match_atom w (Star cs) s) \<longleftrightarrow>
     (\<exists>a. s = a @ mid \<and> (\<forall>c \<in> set a. cset_mem cs c))"
  by (simp add: star_ends_iff)

lemma match_here_Nil_iff: "r \<in> set (match_here w [] s) \<longleftrightarrow> r = s"
  by auto

lemmas match_iffs = match_here_Cons_iff match_here_Nil_iff match_Bol_iff match_Eol_iff
  match_One_iff match_Plus_iff match_Star_iff

lemma match_here_ConsI:
  "mid \<in> set (match_atom w a s) \<Longrightarrow> r \<in> set (match_here w as mid) \<Longrightarrow>
   r \<in> set (match_here w (a # as) s)"
  by auto

lemma match_PlusI:
  "a \<noteq> [] \<Longrightarrow> \<forall>c \<in> set a. cset_mem cs c \<Longrightarrow> mid \<in> set (match_atom w (Plus cs) (a @ mid))"
  using match_Plus_iff by blast

lemma match_OneI: "cset_mem cs c \<Longrightarrow> mid \<in> set (match_atom w (One cs) (c # mid))"
  by simp

lemma match_reEmail_iff:
  "r \<in> set (match_here w reEmail s) \<longleftrightarrow>
     length s = length w \<and> (r = [] \<or> r = [CHR 0x0A]) \<and>
     (\<exists>a b c. s = a @ CHR ''@'' # b @ CHR ''.'' # c @ r \<and> a \<noteq> [] \<and> b \<noteq> [] \<and> c \<noteq> [] \<and>
        CHR ''@'' \<notin> set a \<and> CHR ''@'' \<notin> set b \<and> CHR ''@'' \<notin> set c)"
  (is "?L \<longleftrightarrow> ?R")
proof
  assume ?L
  then show ?R
    unfolding reEmail_def match_iffs
    by (elim exE conjE) (simp, blast)
next
  assume ?R
  then obtain a b c where *: "length s = length w" "r = [] \<or> r = [CHR 0x0A]"
    "s = a @ CHR ''@'' # b @ CHR ''.'' # c @ r" "a \<noteq> []" "b \<noteq> []" "c \<noteq> []"
    "CHR ''@'' \<notin> set a" "CHR ''@'' \<notin> set b" "CHR ''@'' \<notin> set c" by blast
  have nat: "\<forall>x \<in> set a. cset_mem (NoneOf ''@'') x" "\<forall>x \<in> set b. cset_mem (NoneOf ''@'') x"
    "\<forall>x \<in> set c. cset_mem (NoneOf ''@'') x"
    using * by auto
  have 1: "r \<in> set (match_here w [Eol] r)"
    using * by auto
  have 2: "r \<in> set (match_here w [Plus (NoneOf ''@''), Eol] (c @ r))"
    by (rule match_here_ConsI [OF match_PlusI [OF *(6) nat(3)] 1])
  have 3: "r \<in> set (match_here w [One (Lit (CHR ''.'')), Plus (NoneOf ''@''), Eol]
                     (CHR ''.'' # c @ r))"
    by (rule match_here_ConsI [OF match_OneI 2]) simp
  have 4: "r \<in> set (match_here w [Plus (NoneOf ''@''), One (Lit (CHR ''.'')),
                       Plus (NoneOf ''@''), Eol] (b @ CHR ''.'' # c @ r))"
    by (rule match_here_ConsI [OF match_PlusI [OF *(5) nat(2)] 3])
  have 5: "r \<in> set (match_here w [One (Lit (CHR ''@'')), Plus (NoneOf ''@''),
                       One (Lit (CHR ''.'')), Plus (NoneOf ''@''), Eol]
                     (CHR ''@'' # b @ CHR ''.'' # c @ r))"
    by (rule match_here_ConsI [OF match_OneI 4]) simp
  have 6: "r \<in> set (match_here w [Plus (NoneOf ''@''), One (Lit (CHR ''@'')),
                       Plus (NoneOf ''@''), One (Lit (CHR ''.'')), Plus (NoneOf ''@''), Eol]
                     (a @ CHR ''@'' # b @ CHR ''.'' # c @ r))"
    by (rule match_here_ConsI [OF match_PlusI [OF *(4) nat(1)] 5])
  have 7: "s \<in> set (match_atom w Bol s)"
    using * by simp
  show ?L
    unfolding reEmail_def using 6 *(3) by (intro match_here_ConsI [OF 7]) simp
qed

lemma search_from_None_iff:
  "search_from w pat pre s = None \<longleftrightarrow> (\<forall>k \<le> length s. match_here w pat (drop k s) = [])"
proof (induction s arbitrary: pre)
  case Nil
  then show ?case by (simp split: list.splits)
next
  case (Cons x s)
  have "(\<forall>k \<le> length (x # s). match_here w pat (drop k (x # s)) = []) \<longleftrightarrow>
        match_here w pat (x # s) = [] \<and> (\<forall>k \<le> length s. match_here w pat (drop k s) = [])"
    (is "?A \<longleftrightarrow> ?B")
  proof
    assume a: ?A
    have "match_here w pat (drop 0 (x # s)) = []" using a by blast
    moreover have "\<forall>k \<le> length s. match_here w pat (drop (Suc k) (x # s)) = []"
      using a by auto
    ultimately show ?B by simp
  next
    assume b: ?B
    show ?A
    proof (intro allI impI)
      fix k assume "k \<le> length (x # s)"
      then show "match_here w pat (drop k (x # s)) = []"
        using b by (cases k) auto
    qed
  qed
  with Cons show ?case by (simp split: list.splits)
qed

lemma validateEmailAddress_iff: "validateEmailAddress s \<longleftrightarrow> matches_pattern s"
proof -
  have "validateEmailAddress s \<longleftrightarrow> (\<exists>k \<le> length s. match_here s reEmail (drop k s) \<noteq> [])"
    by (simp add: validateEmailAddress_def re_search_def search_from_None_iff)
  also have "\<dots> \<longleftrightarrow> match_here s reEmail s \<noteq> []"
  proof
    assume "\<exists>k \<le> length s. match_here s reEmail (drop k s) \<noteq> []"
    then obtain k r where k: "k \<le> length s" "r \<in> set (match_here s reEmail (drop k s))"
      by (metis last_in_set)
    then have "length (drop k s) = length s" by (simp add: match_reEmail_iff)
    with k have "k = 0" by simp
    with k show "match_here s reEmail s \<noteq> []" by auto
  next
    assume "match_here s reEmail s \<noteq> []"
    then have "match_here s reEmail (drop 0 s) \<noteq> []" by simp
    then show "\<exists>k \<le> length s. match_here s reEmail (drop k s) \<noteq> []" by blast
  qed
  also have "\<dots> \<longleftrightarrow> (\<exists>r. r \<in> set (match_here s reEmail s))"
    by (cases "match_here s reEmail s") auto
  also have "\<dots> \<longleftrightarrow> matches_pattern s"
  proof
    assume "\<exists>r. r \<in> set (match_here s reEmail s)"
    then obtain r a b c where r: "r = [] \<or> r = [CHR 0x0A]"
      "s = a @ CHR ''@'' # b @ CHR ''.'' # c @ r" "a \<noteq> []" "b \<noteq> []" "c \<noteq> []"
      "CHR ''@'' \<notin> set a" "CHR ''@'' \<notin> set b" "CHR ''@'' \<notin> set c"
      unfolding match_reEmail_iff by blast
    then have "s = a @ ''@'' @ b @ ''.'' @ (c @ r) \<and> a \<noteq> [] \<and> b \<noteq> [] \<and> c @ r \<noteq> [] \<and>
        CHR ''@'' \<notin> set a \<and> CHR ''@'' \<notin> set b \<and> CHR ''@'' \<notin> set (c @ r)"
      by auto
    then show "matches_pattern s" unfolding matches_pattern_def by blast
  next
    assume "matches_pattern s"
    then obtain a b c where "s = a @ CHR ''@'' # b @ CHR ''.'' # c @ []" "a \<noteq> []" "b \<noteq> []"
      "c \<noteq> []" "CHR ''@'' \<notin> set a" "CHR ''@'' \<notin> set b" "CHR ''@'' \<notin> set c"
      unfolding matches_pattern_def by auto
    then have "[] \<in> set (match_here s reEmail s)"
      unfolding match_reEmail_iff by blast
    then show "\<exists>r. r \<in> set (match_here s reEmail s)" by blast
  qed
  finally show ?thesis .
qed


lemma matches_pattern_count: "matches_pattern s \<Longrightarrow> count_list s (CHR ''@'') = 1"
  unfolding matches_pattern_def by (auto simp: count_list_0_iff)

lemma matches_pattern_dot:
  assumes "matches_pattern s"
  shows "CHR ''.'' \<in> set (dropWhile (\<lambda>c. c \<noteq> CHR ''@'') s)"
proof -
  from assms obtain a b c where s: "s = a @ CHR ''@'' # b @ CHR ''.'' # c"
    and a: "CHR ''@'' \<notin> set a"
    unfolding matches_pattern_def by auto
  from a have "dropWhile (\<lambda>c. c \<noteq> CHR ''@'') s = CHR ''@'' # b @ CHR ''.'' # c"
    unfolding s by (auto simp: dropWhile_append3)
  then show ?thesis by simp
qed

text \<open>
  Claim C2. \<open>validateEmailAddress\<close> returns true for every string of the form of the
  pattern; it returns false for a string with no \<open>@\<close> or with two or more, and for a
  string with no dot after its first \<open>@\<close>. It returns a truth value only: the method
  assigns nothing, so the model has no object to return.
\<close>

theorem validateEmailAddress_pattern:
  "(matches_pattern s \<longrightarrow> validateEmailAddress s) \<and>
   (count_list s (CHR ''@'') = 0 \<or> 2 \<le> count_list s (CHR ''@'') \<longrightarrow> \<not> validateEmailAddress s) \<and>
   (CHR ''.'' \<notin> set (dropWhile (\<lambda>c. c \<noteq> CHR ''@'') s) \<longrightarrow> \<not> validateEmailAddress s)"
  using matches_pattern_count [of s] matches_pattern_dot [of s]
  by (auto simp: validateEmailAddress_iff)

lemma matches_pattern_example: "matches_pattern ''a@b.com''"
  unfolding matches_pattern_def
  by (rule exI [of _ "''a''"], rule exI [of _ "''b''"], rule exI [of _ "''com''"]) simp

theorem validateEmailAddress_pattern_witness:
  "matches_pattern ''a@b.com'' \<and> validateEmailAddress ''a@b.com'' \<and>
   2 \<le> count_list ''a@@b.com'' (CHR ''@'') \<and> \<not> validateEmailAddress ''a@@b.com'' \<and>
   count_list ''a.com'' (CHR ''@'') = 0 \<and> \<not> validateEmailAddress ''a.com'' \<and>
   CHR ''.'' \<notin> set (dropWhile (\<lambda>c. c \<noteq> CHR ''@'') ''a@bcom'') \<and>
   \<not> validateEmailAddress ''a@bcom''"
  using validateEmailAddress_pattern [of "''a@b.com''"]
    validateEmailAddress_pattern [of "''a@@b.com''"]
    validateEmailAddress_pattern [of "''a.com''"]
    validateEmailAddress_pattern [of "''a@bcom''"]
    matches_pattern_example
  by simp

text \<open>
  Claim C9 says that a match of the pattern followed by one line feed is accepted although
  it does not have the form of the pattern. It is accepted, but it has the form: the line
  feed is a character other than \<open>@\<close> and belongs to the last run, as in
  \<open>a@b.com\<close> followed by a line feed.
\<close>

theorem trailing_newline_counterexample:
  "matches_pattern ''a@b.com'' \<and> matches_pattern (''a@b.com'' @ [CHR 0x0A])"
proof
  show "matches_pattern ''a@b.com''"
    unfolding matches_pattern_def
    by (rule exI [of _ "''a''"], rule exI [of _ "''b''"], rule exI [of _ "''com''"]) simp
  show "matches_pattern (''a@b.com'' @ [CHR 0x0A])"
    unfolding matches_pattern_def
    by (rule exI [of _ "''a''"], rule exI [of _ "''b''"],
        rule exI [of _ "''com'' @ [CHR 0x0A]"]) simp
qed

lemma matches_pattern_append:
  assumes "matches_pattern t" "CHR ''@'' \<notin> set u"
  shows "matches_pattern (t @ u)"
proof -
  from assms(1) obtain a b c where "t = a @ ''@'' @ b @ ''.'' @ c" "a \<noteq> []" "b \<noteq> []" "c \<noteq> []"
      "CHR ''@'' \<notin> set a" "CHR ''@'' \<notin> set b" "CHR ''@'' \<notin> set c"
    unfolding matches_pattern_def by blast
  with assms(2) have "t @ u = a @ ''@'' @ b @ ''.'' @ (c @ u) \<and> a \<noteq> [] \<and> b \<noteq> [] \<and>
      c @ u \<noteq> [] \<and> CHR ''@'' \<notin> set a \<and> CHR ''@'' \<notin> set b \<and> CHR ''@'' \<notin> set (c @ u)"
    by simp
  then show ?thesis unfolding matches_pattern_def by blast
qed

text \<open>
  Claim C9, amended. For every string \<open>t\<close> of the form of the pattern,
  \<open>validateEmailAddress\<close> returns true on \<open>t\<close> followed by one line feed, and that
  string has the form of the pattern itself.
\<close>

theorem validateEmailAddress_trailing_newline:
  "matches_pattern t \<Longrightarrow>
   validateEmailAddress (t @ [CHR 0x0A]) \<and> matches_pattern (t @ [CHR 0x0A])"
  using matches_pattern_append [of t "[CHR 0x0A]"] by (simp add: validateEmailAddress_iff)

theorem validateEmailAddress_trailing_newline_witness:
  "matches_pattern ''a@b.com'' \<and> validateEmailAddress (''a@b.com'' @ [CHR 0x0A]) \<and>
   matches_pattern (''a@b.com'' @ [CHR 0x0A])"
  using validateEmailAddress_trailing_newline [OF matches_pattern_example] matches_pattern_example
  by simp

section \<open>Recipients and attachments\<close>

lemma with_recipients_Nil: "with_recipients m kind [] = m"
  by (simp add: with_recipients_def)

lemma addRecipient_valid:
  "validateEmailAddress a \<Longrightarrow> addRecipient m a kind = (Inr (), with_recipients m kind [a])"
  by (simp add: addRecipient_def with_recipients_def)

lemma with_recipients_Cons:
  "with_recipients (with_recipients m kind [a]) kind xs = with_recipients m kind (a # xs)"
  by (simp add: with_recipients_def)

lemma addRecipients_loop_step:
  "addRecipients_loop m (a # rest) type =
     (case addRecipient m a (kind_of type) of
        (Inl e, m') \<Rightarrow> (Inl e, m')
      | (Inr _, m') \<Rightarrow> addRecipients_loop m' rest type)"
  by (cases type) (auto simp: kind_of_def)

lemma addRecipients_loop_valid:
  "list_all validateEmailAddress xs \<Longrightarrow>
   addRecipients_loop m xs type = (Inr (), with_recipients m (kind_of type) xs)"
proof (induction xs arbitrary: m)
  case Nil
  then show ?case by (simp add: with_recipients_Nil)
next
  case (Cons a xs)
  then show ?case
    by (simp only: addRecipients_loop_step list.pred_inject addRecipient_valid
        with_recipients_Cons prod.case sum.case)
qed

lemma addRecipients_loop_invalid:
  assumes "list_all validateEmailAddress good" "\<not> validateEmailAddress bad"
  shows "addRecipients_loop m (good @ bad # rest) type =
           (Inl (InvalidAddress (kind_of type) bad), with_recipients m (kind_of type) good)"
  using assms(1)
proof (induction good arbitrary: m)
  case Nil
  show ?case using assms(2)
    by (simp only: append_Nil addRecipients_loop_step with_recipients_Nil)
       (simp add: addRecipient_def)
next
  case (Cons a good)
  then show ?case
    by (simp only: append_Cons addRecipients_loop_step list.pred_inject addRecipient_valid
        with_recipients_Cons prod.case sum.case)
qed


subsection \<open>Splitting at the delimiters\<close>

lemma star_ends_hd: "star_ends P s \<noteq> [] \<and> hd (star_ends P s) = dropWhile P s"
  by (induction s) auto

lemma concat_singletons: "concat (map (\<lambda>r. [r]) xs) = xs"
  by (induction xs) auto

lemma match_delimiter_Nil: "match_here w (delimiter_pattern ds) [] = []"
  by (simp add: delimiter_pattern_def)

lemma match_delimiter_Cons:
  "match_here w (delimiter_pattern ds) (c # cs) =
     (if c \<in> set ds then star_ends is_space cs else [])"
proof -
  have 1: "match_here w [] = (\<lambda>r. [r])" by (rule ext) simp
  have 2: "cset_mem Whitespace = is_space" by (rule ext) simp
  show ?thesis
    by (simp add: delimiter_pattern_def 1 2 concat_singletons)
qed

lemma search_delimiter_none:
  "list_all (\<lambda>c. c \<notin> set ds) s \<Longrightarrow> search_from w (delimiter_pattern ds) pre s = None"
  by (induction s arbitrary: pre) (simp_all add: match_delimiter_Nil match_delimiter_Cons)

lemma search_delimiter_first:
  assumes "list_all (\<lambda>c. c \<notin> set ds) a" "d \<in> set ds"
  shows "search_from w (delimiter_pattern ds) pre (a @ d # t) =
           Some (pre @ a, dropWhile is_space t)"
  using assms(1)
proof (induction a arbitrary: pre)
  case Nil
  obtain r rs where "star_ends is_space t = r # rs" "r = dropWhile is_space t"
    using star_ends_hd [of is_space t] by (cases "star_ends is_space t") auto
  then show ?case using assms(2) by (simp add: match_delimiter_Cons)
next
  case (Cons x a)
  then show ?case by (simp add: match_delimiter_Cons)
qed

lemma re_split_from_none:
  "list_all (\<lambda>c. c \<notin> set ds) s \<Longrightarrow> re_split_from w (delimiter_pattern ds) cur s = [cur @ s]"
  by (subst re_split_from.simps) (simp add: search_delimiter_none del: re_split_from.simps)

lemma re_split_from_first:
  assumes "list_all (\<lambda>c. c \<notin> set ds) a" "d \<in> set ds"
  shows "re_split_from w (delimiter_pattern ds) cur (a @ d # t) =
           (cur @ a) # re_split_from w (delimiter_pattern ds) [] (dropWhile is_space t)"
proof -
  have "length (dropWhile is_space t) \<le> length t" by (rule length_dropWhile_le)
  then have "length a + length (dropWhile is_space t) < length (a @ d # t)" by simp
  then show ?thesis
    by (subst re_split_from.simps)
       (simp add: search_delimiter_first [OF assms] del: re_split_from.simps)
qed

lemma dropWhile_spaces:
  "list_all is_space ws \<Longrightarrow> b \<noteq> [] \<Longrightarrow> \<not> is_space (hd b) \<Longrightarrow>
   dropWhile is_space (ws @ b @ t) = b @ t"
proof (induction ws)
  case Nil
  then show ?case by (cases b) simp_all
next
  case (Cons x ws)
  then show ?case by simp
qed

lemma valid_not_Nil: "validateEmailAddress a \<Longrightarrow> a \<noteq> []"
  by (auto simp: validateEmailAddress_iff matches_pattern_def)

lemma re_split_address_list:
  assumes "plain_address a" "list_all (\<lambda>(sep, b). separator sep \<and> plain_address b) ps"
  shows "re_split_from w (delimiter_pattern addressDelimiters) [] (address_list a ps) =
           a # map snd ps"
  using assms
proof (induction ps arbitrary: a)
  case Nil
  then show ?case
    by (simp add: re_split_from_none plain_address_def del: re_split_from.simps)
next
  case (Cons p ps)
  obtain sep b where p: "p = (sep, b)" by (cases p)
  with Cons.prems have sep: "separator sep" and b: "plain_address b"
    and ps: "list_all (\<lambda>(sep, b). separator sep \<and> plain_address b) ps"
    by simp_all
  from sep obtain d ws where d: "sep = d # ws" "d \<in> set addressDelimiters" "list_all is_space ws"
    by (cases sep) auto
  from b have b': "b \<noteq> []" "\<not> is_space (hd b)"
    by (auto simp: plain_address_def valid_not_Nil)
  obtain t where t: "address_list b ps = b @ t"
    by (cases ps) auto
  have a: "list_all (\<lambda>c. c \<notin> set addressDelimiters) a"
    using Cons.prems(1) by (simp add: plain_address_def)
  have "re_split_from w (delimiter_pattern addressDelimiters) [] (address_list a (p # ps)) =
        re_split_from w (delimiter_pattern addressDelimiters) [] (a @ d # (ws @ b @ t))"
    by (simp add: p d t del: re_split_from.simps)
  also have "\<dots> = a # re_split_from w (delimiter_pattern addressDelimiters) []
                        (dropWhile is_space (ws @ b @ t))"
    using re_split_from_first [OF a d(2), of w "[]"] by simp
  also have "dropWhile is_space (ws @ b @ t) = address_list b ps"
    using dropWhile_spaces [OF d(3) b'] t by simp
  also have "re_split_from w (delimiter_pattern addressDelimiters) [] (address_list b ps) =
               b # map snd ps"
    by (rule Cons.IH [OF b ps])
  finally show ?case by (simp add: p)
qed

lemma strip_unchanged:
  assumes "s \<noteq> []" "hd s \<notin> set ds" "last s \<notin> set ds"
  shows "strip ds s = s"
proof -
  have 1: "dropWhile (\<lambda>c. c \<in> set ds) s = s"
    using assms by (cases s) auto
  have "rev s \<noteq> []" "hd (rev s) \<notin> set ds"
    using assms by (simp_all add: hd_rev)
  then have 2: "dropWhile (\<lambda>c. c \<in> set ds) (rev s) = rev s"
    by (cases "rev s") auto
  show ?thesis by (simp add: strip_def 1 2)
qed

lemma address_list_ends:
  assumes "plain_address a" "list_all (\<lambda>(sep, b). separator sep \<and> plain_address b) ps"
  shows "address_list a ps \<noteq> [] \<and> hd (address_list a ps) \<notin> set addressDelimiters \<and>
         last (address_list a ps) \<notin> set addressDelimiters"
  using assms
proof (induction ps arbitrary: a)
  case Nil
  then have "a \<noteq> []" "list_all (\<lambda>c. c \<notin> set addressDelimiters) a"
    by (auto simp: plain_address_def valid_not_Nil)
  then show ?case by (cases a rule: rev_cases) (auto simp: list_all_iff hd_append)
next
  case (Cons p ps)
  obtain sep b where p: "p = (sep, b)" by (cases p)
  with Cons.prems have b: "plain_address b"
    and ps: "list_all (\<lambda>(sep, b). separator sep \<and> plain_address b) ps"
    by simp_all
  from Cons.prems(1) have a: "a \<noteq> []" "list_all (\<lambda>c. c \<notin> set addressDelimiters) a"
    by (auto simp: plain_address_def valid_not_Nil)
  from a have "hd a \<notin> set addressDelimiters" by (cases a) auto
  with a Cons.IH [OF b ps] show ?case
    by (simp add: p hd_append)
qed

lemma addRecipients_address_list:
  assumes "plain_address a" "list_all (\<lambda>(sep, b). separator sep \<and> plain_address b) ps"
  shows "addRecipients m (address_list a ps) type =
           (Inr (), with_recipients m (kind_of type) (a # map snd ps))"
proof -
  have valid: "list_all validateEmailAddress (a # map snd ps)"
    using assms by (auto simp: plain_address_def list_all_iff)
  have "strip addressDelimiters (address_list a ps) = address_list a ps"
    using address_list_ends [OF assms] by (simp add: strip_unchanged)
  then show ?thesis
    unfolding addRecipients_def re_split_def
    by (simp add: re_split_address_list [OF assms] addRecipients_loop_valid [OF valid]
        del: re_split_from.simps addRecipients_loop.simps)
qed


lemma search_from_pre:
  "search_from w pat pre s = map_option (\<lambda>(p, r). (pre @ p, r)) (search_from w pat [] s)"
proof (induction s arbitrary: pre)
  case Nil
  then show ?case by (simp split: list.splits)
next
  case (Cons c s)
  show ?case
  proof (cases "match_here w pat (c # s)")
    case Nil
    have "search_from w pat pre (c # s) = search_from w pat (pre @ [c]) s"
      using Nil by simp
    also have "\<dots> = map_option (\<lambda>(p, r). ((pre @ [c]) @ p, r)) (search_from w pat [] s)"
      by (rule Cons.IH)
    also have "\<dots> = map_option (\<lambda>(p, r). (pre @ p, r))
                       (map_option (\<lambda>(p, r). ([c] @ p, r)) (search_from w pat [] s))"
      by (simp add: option.map_comp comp_def case_prod_unfold)
    also have "map_option (\<lambda>(p, r). ([c] @ p, r)) (search_from w pat [] s) =
               search_from w pat [] (c # s)"
      using Nil Cons.IH [of "[c]"] by simp
    finally show ?thesis .
  next
    case (Cons r rs)
    then show ?thesis by simp
  qed
qed

lemma re_split_from_skip:
  assumes "match_here w pat (c # cs) = []"
  shows "re_split_from w pat cur (c # cs) = re_split_from w pat (cur @ [c]) cs"
proof -
  have s: "search_from w pat [] (c # cs) =
           map_option (\<lambda>(p, r). (c # p, r)) (search_from w pat [] cs)"
    using assms search_from_pre [of w pat "[c]" cs] by simp
  show ?thesis
  proof (cases "search_from w pat [] cs")
    case None
    then show ?thesis
      by (subst re_split_from.simps, subst (2) re_split_from.simps)
         (simp add: s del: re_split_from.simps search_from.simps)
  next
    case (Some pr)
    obtain p r where pr: "pr = (p, r)" by (cases pr)
    show ?thesis
      by (subst re_split_from.simps, subst (2) re_split_from.simps)
         (simp add: s Some pr del: re_split_from.simps search_from.simps split: list.splits)
  qed
qed

lemma re_split_from_fragments:
  "re_split_from w (delimiter_pattern ds) cur s = fragments ds cur s"
proof (induction ds cur s rule: fragments.induct)
  case (1 ds cur)
  show ?case using re_split_from_none [of ds "[]" w cur] by simp
next
  case (2 ds cur c cs)
  show ?case
  proof (cases "c \<in> set ds")
    case True
    then show ?thesis
      using re_split_from_first [of ds "[]" c w cur cs] 2 by simp
  next
    case False
    then have "match_here w (delimiter_pattern ds) (c # cs) = []"
      by (simp add: match_delimiter_Cons)
    then show ?thesis
      using False 2 by (simp add: re_split_from_skip del: re_split_from.simps)
  qed
qed

lemma addRecipients_by_fragments:
  "addRecipients m s type =
     addRecipients_loop m (fragments addressDelimiters [] (strip addressDelimiters s)) type"
  by (simp add: addRecipients_def re_split_def re_split_from_fragments
      del: re_split_from.simps)

lemma empty_invalid: "\<not> validateEmailAddress []"
  by (simp add: validateEmailAddress_def re_search_def reEmail_def)

lemmas eval_defs = example_email_def Email_init_def clearRecipients_def clearAttachments_def
  addRecipients_def addRecipient_def validateEmailAddress_def re_search_def reEmail_def
  re_split_def delimiter_pattern_def addressDelimiters_def strip_def is_space_def

text \<open>
  Claim C4 says that empty fragments are discarded. They are not: between two adjacent
  commas \<open>re.split\<close> yields an empty fragment, \<open>addRecipient\<close> is called on it and
  raises, after the address before it has been added.
\<close>

theorem addRecipients_empty_fragment_counterexample:
  "addRecipients example_email ''a@b.com,,c@d.com'' None =
     (Inl (InvalidAddress ''TO'' []), example_email\<lparr>to := [''a@b.com'']\<rparr>)"
  by (simp add: eval_defs)

text \<open>
  Claim C4, amended. \<open>addRecipients\<close> trims the delimiters from both ends of its input
  and calls \<open>addRecipient\<close>, in order, on each fragment of the rest, where a fragment
  ends at a comma, a line feed or a carriage return, dropped with the whitespace that
  follows it; the kind is \<open>TO\<close> when none is given. An empty fragment is not discarded:
  when the fragments before it are valid they are added and \<open>InvalidAddress\<close> is raised
  for the empty one. For a list made of valid addresses (holding no delimiter and not
  beginning with whitespace) separated by one delimiter followed by any whitespace, exactly
  these addresses are added, in order; the example of the specification is such a list.
\<close>

theorem addRecipients_fragments:
  "addRecipients m s type =
     addRecipients_loop m (fragments addressDelimiters [] (strip addressDelimiters s)) type \<and>
   (list_all validateEmailAddress good \<and>
    fragments addressDelimiters [] (strip addressDelimiters s) = good @ [] # rest \<longrightarrow>
      addRecipients m s type =
        (Inl (InvalidAddress (kind_of type) []), with_recipients m (kind_of type) good)) \<and>
   (plain_address a \<and> list_all (\<lambda>(sep, b). separator sep \<and> plain_address b) ps \<longrightarrow>
      addRecipients m (address_list a ps) type =
        (Inr (), with_recipients m (kind_of type) (a # map snd ps)))"
  using addRecipients_loop_invalid [of good "[]" m rest type] empty_invalid
    addRecipients_address_list [of a ps m type]
  by (auto simp: addRecipients_by_fragments)

theorem addRecipients_fragments_witness:
  "plain_address ''a@b.com'' \<and>
   list_all (\<lambda>(sep, b). separator sep \<and> plain_address b)
     [('', '', ''c@d.com''), ([CHR 0x0A], ''e@f.com'')] \<and>
   address_list ''a@b.com'' [('', '', ''c@d.com''), ([CHR 0x0A], ''e@f.com'')] =
     ''a@b.com, c@d.com'' @ [CHR 0x0A] @ ''e@f.com'' \<and>
   to (snd (addRecipients example_email (''a@b.com, c@d.com'' @ [CHR 0x0A] @ ''e@f.com'') None)) =
     [''a@b.com'', ''c@d.com'', ''e@f.com''] \<and>
   list_all validateEmailAddress [''a@b.com''] \<and>
   fragments addressDelimiters [] (strip addressDelimiters ''a@b.com,,c@d.com'') =
     [''a@b.com''] @ [] # [''c@d.com''] \<and>
   addRecipients example_email ''a@b.com,,c@d.com'' (Some ''CC'') =
     (Inl (InvalidAddress ''CC'' []), with_recipients example_email ''CC'' [''a@b.com''])"
proof -
  have a: "plain_address ''a@b.com''"
    by (simp add: plain_address_def eval_defs)
  have ps: "list_all (\<lambda>(sep, b). separator sep \<and> plain_address b)
     [('', '', ''c@d.com''), ([CHR 0x0A], ''e@f.com'')]"
    by (simp add: plain_address_def eval_defs)
  have good: "list_all validateEmailAddress [''a@b.com'']"
    by (simp add: eval_defs)
  have fr: "fragments addressDelimiters [] (strip addressDelimiters ''a@b.com,,c@d.com'') =
     [''a@b.com''] @ [] # [''c@d.com'']"
    by (simp add: addressDelimiters_def strip_def is_space_def)
  have "addRecipients example_email
          (address_list ''a@b.com'' [('', '', ''c@d.com''), ([CHR 0x0A], ''e@f.com'')]) None =
        (Inr (), with_recipients example_email (kind_of None)
           (''a@b.com'' # map snd [('', '', ''c@d.com''), ([CHR 0x0A], ''e@f.com'')]))"
    by (rule addRecipients_fragments [of example_email "[]" None "[]" "[]" "''a@b.com''"
          "[('', '', ''c@d.com''), ([CHR 0x0A], ''e@f.com'')]",
          THEN conjunct2, THEN conjunct2, THEN mp])
       (intro conjI a ps)
  then have 1: "addRecipients example_email
             (address_list ''a@b.com'' [('', '', ''c@d.com''), ([CHR 0x0A], ''e@f.com'')]) None =
           (Inr (), with_recipients example_email ''TO'' [''a@b.com'', ''c@d.com'', ''e@f.com''])"
    by (simp add: kind_of_def)
  have "addRecipients example_email ''a@b.com,,c@d.com'' (Some ''CC'') =
        (Inl (InvalidAddress (kind_of (Some ''CC'')) []),
         with_recipients example_email (kind_of (Some ''CC'')) [''a@b.com''])"
    by (rule addRecipients_fragments [of example_email "''a@b.com,,c@d.com''" "Some ''CC''"
          "[''a@b.com'']" "[''c@d.com'']" "[]" "[]",
          THEN conjunct2, THEN conjunct1, THEN mp])
       (intro conjI good fr)
  then have 2: "addRecipients example_email ''a@b.com,,c@d.com'' (Some ''CC'') =
           (Inl (InvalidAddress ''CC'' []), with_recipients example_email ''CC'' [''a@b.com''])"
    by (simp add: kind_of_def)
  have 3: "address_list ''a@b.com'' [('', '', ''c@d.com''), ([CHR 0x0A], ''e@f.com'')] =
           ''a@b.com, c@d.com'' @ [CHR 0x0A] @ ''e@f.com''"
    by simp
  have 4: "to (with_recipients example_email ''TO'' [''a@b.com'', ''c@d.com'', ''e@f.com'']) =
           [''a@b.com'', ''c@d.com'', ''e@f.com'']"
    by (simp add: with_recipients_def example_email_def Email_init_def clearRecipients_def
        clearAttachments_def)
  from 1 have 5: "to (snd (addRecipients example_email
                    (''a@b.com, c@d.com'' @ [CHR 0x0A] @ ''e@f.com'') None)) =
                  [''a@b.com'', ''c@d.com'', ''e@f.com'']"
    unfolding 3 by (simp only: snd_conv 4)
  show ?thesis
    using a ps good fr 2 3 5 by (intro conjI)
qed

text \<open>
  Claim C7 says that \<open>addRecipients\<close> leaves the object as it was when a later fragment
  is the invalid one. It does not: the addresses before the invalid fragment have been
  appended when the error is raised.
\<close>

theorem addRecipients_partial_state_counterexample:
  "to example_email = [] \<and>
   addRecipients example_email ''a@b.com,bad'' None =
     (Inl (InvalidAddress ''TO'' ''bad''), example_email\<lparr>to := [''a@b.com'']\<rparr>)"
  by (simp add: eval_defs)

text \<open>
  Claim C7, amended. \<open>setFrom\<close>, \<open>setReplyTo\<close> and \<open>addRecipient\<close> raise
  \<open>InvalidAddress\<close> on every invalid address, whatever its characters, and leave the
  object as it was.
  \<open>addRecipients\<close> raises \<open>InvalidAddress\<close> at the first invalid fragment; the valid
  fragments before it stay appended to the list of the kind and nothing else changes, so
  the object is as it was when the first fragment is the invalid one.
\<close>

theorem invalid_address_rejected:
  assumes "\<not> validateEmailAddress address"
  shows "setFrom m address = (Inl (InvalidAddress ''FROM'' address), m) \<and>
         setReplyTo m address = (Inl (InvalidAddress ''REPLY-TO'' address), m) \<and>
         addRecipient m address kind = (Inl (InvalidAddress kind address), m) \<and>
         (list_all validateEmailAddress good \<and> \<not> validateEmailAddress bad \<and>
          re_split (delimiter_pattern addressDelimiters) (strip addressDelimiters addressList) =
            good @ bad # rest \<longrightarrow>
            addRecipients m addressList type =
              (Inl (InvalidAddress (kind_of type) bad),
               with_recipients m (kind_of type) good)) \<and>
         with_recipients m (kind_of type) [] = m"
proof -
  have setters: "setFrom m address = (Inl (InvalidAddress ''FROM'' address), m)"
    "setReplyTo m address = (Inl (InvalidAddress ''REPLY-TO'' address), m)"
    "addRecipient m address kind = (Inl (InvalidAddress kind address), m)"
    using assms by (simp_all add: setFrom_def setReplyTo_def addRecipient_def)
  have list: "addRecipients m addressList type =
      (Inl (InvalidAddress (kind_of type) bad), with_recipients m (kind_of type) good)"
    if "list_all validateEmailAddress good" "\<not> validateEmailAddress bad"
      "re_split (delimiter_pattern addressDelimiters) (strip addressDelimiters addressList) =
         good @ bad # rest"
    using addRecipients_loop_invalid [OF that(1,2), of m rest type]
    by (simp add: addRecipients_def that(3))
  show ?thesis
    using setters list by (simp add: with_recipients_Nil)
qed

theorem invalid_address_rejected_witness:
  "\<not> validateEmailAddress ''a@b,c'' \<and>
   setFrom example_email ''a@b,c'' = (Inl (InvalidAddress ''FROM'' ''a@b,c''), example_email) \<and>
   setReplyTo example_email ''a@b,c'' =
     (Inl (InvalidAddress ''REPLY-TO'' ''a@b,c''), example_email) \<and>
   addRecipient example_email ''a@b,c'' ''CC'' =
     (Inl (InvalidAddress ''CC'' ''a@b,c''), example_email) \<and>
   list_all validateEmailAddress [''a@b.com''] \<and> \<not> validateEmailAddress ''bad'' \<and>
   re_split (delimiter_pattern addressDelimiters) (strip addressDelimiters ''a@b.com,bad'') =
     [''a@b.com''] @ ''bad'' # [] \<and>
   addRecipients example_email ''a@b.com,bad'' None =
     (Inl (InvalidAddress ''TO'' ''bad''), with_recipients example_email ''TO'' [''a@b.com''])"
proof -
  have 0: "\<not> validateEmailAddress ''a@b,c''" by (simp add: eval_defs)
  have 1: "\<not> validateEmailAddress ''bad''" by (simp add: eval_defs)
  have 2: "list_all validateEmailAddress [''a@b.com'']" by (simp add: eval_defs)
  have 3: "re_split (delimiter_pattern addressDelimiters)
             (strip addressDelimiters ''a@b.com,bad'') = [''a@b.com''] @ ''bad'' # []"
    by (simp add: eval_defs)
  note inst = invalid_address_rejected [OF 0, of example_email "''CC''" "[''a@b.com'']"
      "''bad''" "''a@b.com,bad''" "[]" None]
  have setters: "setFrom example_email ''a@b,c'' =
      (Inl (InvalidAddress ''FROM'' ''a@b,c''), example_email)"
    "setReplyTo example_email ''a@b,c'' =
      (Inl (InvalidAddress ''REPLY-TO'' ''a@b,c''), example_email)"
    "addRecipient example_email ''a@b,c'' ''CC'' =
      (Inl (InvalidAddress ''CC'' ''a@b,c''), example_email)"
    using inst by blast+
  have "addRecipients example_email ''a@b.com,bad'' None =
      (Inl (InvalidAddress (kind_of None) ''bad''),
       with_recipients example_email (kind_of None) [''a@b.com''])"
    by (rule inst [THEN conjunct2, THEN conjunct2, THEN conjunct2, THEN conjunct1, THEN mp])
       (intro conjI 2 1 3)
  then have list: "addRecipients example_email ''a@b.com,bad'' None =
      (Inl (InvalidAddress ''TO'' ''bad''), with_recipients example_email ''TO'' [''a@b.com''])"
    by (simp add: kind_of_def)
  show ?thesis
    using 0 1 2 3 setters list by (intro conjI)
qed

text \<open>
  Claim C8 says that an empty \<open>filePath\<close> is a silent no-op. Only \<open>None\<close> is: the
  guard of \<open>addAttachment\<close> is \<open>filepath is None\<close>, and the empty string is appended
  like every other path.
\<close>

theorem addAttachment_empty_path_counterexample:
  "attach example_email = [] \<and>
   attach (addAttachment example_email (Some []) None) = [([], None)]"
  by (simp add: addAttachment_def example_email_def Email_init_def clearRecipients_def
      clearAttachments_def)

text \<open>
  Claim C8, amended. \<open>addAttachment\<close> with \<open>None\<close> as \<open>filePath\<close> returns without
  any change and without an error; for every other \<open>filePath\<close>, the empty string
  included, it appends the pair of the path and the display name. It consults neither
  the file system nor anything else outside the object.
\<close>

theorem addAttachment_appends:
  "addAttachment m None attachname = m \<and>
   addAttachment m (Some path) attachname = m\<lparr>attach := attach m @ [(path, attachname)]\<rparr>"
  by (simp add: addAttachment_def)

section \<open>Sending\<close>

subsection \<open>Parts\<close>

lemma mime_attach_sel:
  "maintype (mime_attach msg p) = maintype msg" "subtype (mime_attach msg p) = subtype msg"
  "cte (mime_attach msg p) = cte msg" "payload (mime_attach msg p) = payload msg"
  "headers (mime_attach msg p) = headers msg" "parts (mime_attach msg p) = parts msg @ [p]"
  "preamble (mime_attach msg p) = preamble msg"
  by (cases msg; simp)+

lemma add_header_sel:
  "maintype (add_header msg n v ps) = maintype msg" "subtype (add_header msg n v ps) = subtype msg"
  "cte (add_header msg n v ps) = cte msg" "payload (add_header msg n v ps) = payload msg"
  "headers (add_header msg n v ps) = headers msg @ [(n, v, ps)]"
  "parts (add_header msg n v ps) = parts msg"
  "preamble (add_header msg n v ps) = preamble msg"
  by (cases msg; simp)+

lemma set_preamble_sel:
  "maintype (set_preamble msg t) = maintype msg" "subtype (set_preamble msg t) = subtype msg"
  "cte (set_preamble msg t) = cte msg" "payload (set_preamble msg t) = payload msg"
  "headers (set_preamble msg t) = headers msg" "parts (set_preamble msg t) = parts msg"
  "preamble (set_preamble msg t) = Some t"
  by (cases msg; simp)+

lemmas mime_sel = mime_attach_sel add_header_sel set_preamble_sel

subsection \<open>The loop over the attachments\<close>

text \<open>The part that the loop makes of one attachment depends on the environment only.\<close>

lemma read_part_unfold:
  "read_part world f mt st tr =
     (case read_file world f (mt \<noteq> ''text'') of
        Inl text \<Rightarrow> (Inl (IOError text), tr @ [Open f (mt \<noteq> ''text'')])
      | Inr data \<Rightarrow>
          (Inr (if mt = ''text'' then MIMEText (Some data) st
                else if mt = ''image'' then MIMEImage data st
                else if mt = ''audio'' then MIMEAudio data st
                else encode_base64 (set_payload (MIMEBase mt st) data)),
           tr @ [Open f (mt \<noteq> ''text'')]))"
  by (simp add: read_part_def io_bind_def io_return_def open_read_def split: sum.split)

lemma make_attachment_unfold:
  "make_attachment world f n tr =
     (if \<not> path_exists world f then (Inl (AttachmentNotFound f), tr @ [Exists f])
      else if \<not> path_isfile world f then (Inl (AttachmentNotAFile f), tr @ [Exists f, IsFile f])
      else (case split_once (CHR ''/'') (guess_ctype world f) of
              None \<Rightarrow> (Inl ValueError, tr @ [Exists f, IsFile f])
            | Some (mt, st) \<Rightarrow>
                (case read_part world f mt st (tr @ [Exists f, IsFile f]) of
                   (Inl e, tr') \<Rightarrow> (Inl e, tr')
                 | (Inr part, tr') \<Rightarrow>
                     (Inr (add_header part ''Content-Disposition'' ''attachment''
                        [(''filename'', case n of None \<Rightarrow> basename f | Some name \<Rightarrow> name)]),
                      tr'))))"
  by (simp add: make_attachment_def io_bind_def io_raise_def io_return_def os_path_exists_def
      os_path_isfile_def split: option.split prod.split sum.split)

lemma make_attachment_trace:
  "make_attachment world f n tr =
     (fst (make_attachment world f n []), tr @ snd (make_attachment world f n []))"
  by (simp add: make_attachment_unfold read_part_unfold
      split: option.split prod.split sum.split)

lemma make_attachment_no_smtp:
  "list_all (\<lambda>ev. \<not> is_smtp ev) (snd (make_attachment world f n []))"
  by (simp add: make_attachment_unfold read_part_unfold
      split: option.split prod.split sum.split)

lemma make_attachment_checks:
  "fst (make_attachment world f n []) =
     (if \<not> path_exists world f then Inl (AttachmentNotFound f)
      else if \<not> path_isfile world f then Inl (AttachmentNotAFile f)
      else fst (make_attachment world f n []))"
  by (simp add: make_attachment_unfold)

lemma attach_files_Cons:
  "attach_files world ((f, n) # rest) msg tr =
     (case fst (make_attachment world f n []) of
        Inl e \<Rightarrow> (Inl e, tr @ snd (make_attachment world f n []))
      | Inr part \<Rightarrow>
          attach_files world rest (mime_attach msg part) (tr @ snd (make_attachment world f n [])))"
  by (subst attach_files.simps, subst io_bind_def, subst make_attachment_trace)
     (simp split: sum.splits)

lemma attach_files_no_smtp:
  "list_all (\<lambda>ev. \<not> is_smtp ev) tr \<Longrightarrow>
   list_all (\<lambda>ev. \<not> is_smtp ev) (snd (attach_files world as msg tr))"
proof (induction as arbitrary: msg tr)
  case Nil
  then show ?case by (simp add: io_return_def)
next
  case (Cons a as)
  obtain f n where a: "a = (f, n)" by (cases a)
  show ?case
    using Cons.prems make_attachment_no_smtp [of world f n]
    by (simp only: a attach_files_Cons split: sum.splits)
       (auto intro!: Cons.IH)
qed


lemma assembles_Inr: "assembles world (f, n) \<Longrightarrow>
  fst (make_attachment world f n []) = Inr (part_of world (f, n))"
  by (simp add: assembles_def part_of_def split: sum.splits)

lemma attach_files_failure:
  assumes "list_all (assembles world) pre" "fst (make_attachment world f n []) = Inl e"
  shows "fst (attach_files world (pre @ (f, n) # post) msg tr) = Inl e"
  using assms(1)
proof (induction pre arbitrary: msg tr)
  case Nil
  show ?case using assms(2) by (simp only: append_Nil attach_files_Cons) simp
next
  case (Cons a pre)
  obtain f' n' where a: "a = (f', n')" by (cases a)
  from Cons.prems have "assembles world (f', n')" "list_all (assembles world) pre"
    by (simp_all add: a)
  then show ?case
    by (simp only: a append_Cons attach_files_Cons assembles_Inr sum.case Cons.IH)
qed

lemma attach_files_success:
  "list_all (assembles world) as \<Longrightarrow>
   fst (attach_files world as msg tr) = Inr (foldl mime_attach msg (map (part_of world) as))"
proof (induction as arbitrary: msg tr)
  case Nil
  then show ?case by (simp add: io_return_def)
next
  case (Cons a as)
  obtain f n where a: "a = (f, n)" by (cases a)
  from Cons.prems have "assembles world (f, n)" "list_all (assembles world) as"
    by (simp_all add: a)
  then show ?case
    by (simp only: a attach_files_Cons assembles_Inr sum.case Cons.IH list.map foldl_Cons)
qed

lemma attach_files_Inr_assembles:
  "fst (attach_files world as msg tr) = Inr msg' \<Longrightarrow> list_all (assembles world) as"
proof (induction as arbitrary: msg tr)
  case Nil
  then show ?case by simp
next
  case (Cons a as)
  obtain f n where a: "a = (f, n)" by (cases a)
  show ?case
  proof (cases "fst (make_attachment world f n [])")
    case (Inl e)
    with Cons.prems show ?thesis by (simp only: a attach_files_Cons) simp
  next
    case (Inr part)
    with Cons.prems have "list_all (assembles world) as"
      by (simp only: a attach_files_Cons sum.case) (rule Cons.IH)
    moreover from Inr have "assembles world (f, n)" by (simp add: assembles_def)
    ultimately show ?thesis by (simp add: a)
  qed
qed

lemma foldl_mime_attach_sel:
  "maintype (foldl mime_attach msg ps) = maintype msg"
  "subtype (foldl mime_attach msg ps) = subtype msg"
  "cte (foldl mime_attach msg ps) = cte msg"
  "payload (foldl mime_attach msg ps) = payload msg"
  "headers (foldl mime_attach msg ps) = headers msg"
  "parts (foldl mime_attach msg ps) = parts msg @ ps"
  "preamble (foldl mime_attach msg ps) = preamble msg"
  by (induction ps arbitrary: msg; simp add: mime_attach_sel)+

lemma assembles_exists:
  "assembles world (f, n) \<Longrightarrow> path_exists world f \<and> path_isfile world f"
  using make_attachment_checks [of world f n]
  by (auto simp: assembles_def split: sum.splits if_splits)


subsection \<open>The composed message\<close>

lemmas compose_defs = compose_def io_bind_def io_raise_def io_return_def get_from_def Let_def
  wrapped_body_def

lemma compose_unfold:
  "compose world m tr =
     (if textBody m = None \<and> htmlBody m = None then (Inl MissingBody, tr)
      else if to m = [] then (Inl MissingRecipient, tr)
      else (case attach_files world (attach m) (wrapped_body m) tr of
              (Inl e, tr') \<Rightarrow> (Inl e, tr')
            | (Inr msg, tr') \<Rightarrow>
                (case from m of
                   None \<Rightarrow> (Inl (AttributeError ''_from''), tr')
                 | Some sender \<Rightarrow>
                     (Inr (set_preamble
                        (case replyTo m of
                           None \<Rightarrow>
                             set_item (set_item (set_item (set_item (set_item msg
                               ''Subject'' (subject m)) ''From'' sender)
                               ''To'' (join '', '' (to m))) ''CC'' (join '', '' (cc m)))
                               ''BCC'' (join '', '' (bcc m))
                         | Some a \<Rightarrow>
                             set_item (set_item (set_item (set_item (set_item (set_item msg
                               ''Subject'' (subject m)) ''From'' sender)
                               ''To'' (join '', '' (to m))) ''CC'' (join '', '' (cc m)))
                               ''BCC'' (join '', '' (bcc m))) ''reply-to'' a)
                        ''You need a MIME enabled mail reader to see this message''),
                      tr'))))"
  by (simp add: compose_defs split: prod.split sum.split option.split)

lemma compose_attach_error:
  assumes "\<not> (textBody m = None \<and> htmlBody m = None)" "to m \<noteq> []"
    and "fst (attach_files world (attach m) (wrapped_body m) tr) = Inl e"
  shows "compose world m tr = (Inl e, snd (attach_files world (attach m) (wrapped_body m) tr))"
  using assms
  by (cases "attach_files world (attach m) (wrapped_body m) tr") (auto simp: compose_unfold)

lemma compose_no_from:
  assumes "\<not> (textBody m = None \<and> htmlBody m = None)" "to m \<noteq> []"
    and "fst (attach_files world (attach m) (wrapped_body m) tr) = Inr msg"
    and "from m = None"
  shows "compose world m tr =
           (Inl (AttributeError ''_from''),
            snd (attach_files world (attach m) (wrapped_body m) tr))"
  using assms
  by (cases "attach_files world (attach m) (wrapped_body m) tr") (auto simp: compose_unfold)

lemma compose_success:
  assumes "compose world m tr = (Inr msg, tr')"
  shows "\<not> (textBody m = None \<and> htmlBody m = None) \<and> to m \<noteq> [] \<and> from m \<noteq> None \<and>
         (\<exists>msg1. fst (attach_files world (attach m) (wrapped_body m) tr) = Inr msg1 \<and>
            maintype msg = maintype msg1 \<and> subtype msg = subtype msg1 \<and>
            cte msg = cte msg1 \<and> payload msg = payload msg1 \<and> parts msg = parts msg1)"
proof (cases "attach_files world (attach m) (wrapped_body m) tr")
  case (Pair r tr1)
  with assms show ?thesis
    by (cases r; cases "from m"; cases "replyTo m")
       (auto simp: compose_unfold set_item_def mime_sel split: if_splits)
qed

lemma compose_no_smtp: "list_all (\<lambda>ev. \<not> is_smtp ev) (snd (compose world m []))"
proof -
  have "list_all (\<lambda>ev. \<not> is_smtp ev) (snd (attach_files world (attach m) (wrapped_body m) []))"
    by (rule attach_files_no_smtp) simp
  then show ?thesis
    by (cases "attach_files world (attach m) (wrapped_body m) []")
       (simp add: compose_unfold split: sum.split option.split)
qed

lemma send_compose_error:
  "fst (compose world m []) = Inl e \<Longrightarrow> send world m = (Inl e, snd (compose world m []))"
  by (cases "compose world m []") (simp add: send_def io_bind_def)

lemma send_composed:
  "compose world m [] = (Inr msg, tr) \<Longrightarrow>
   send world m = transmit world m (to m @ cc m @ bcc m) (as_string world msg) tr"
  by (simp add: send_def io_bind_def)

lemma compose_parts:
  assumes "compose world m tr = (Inr msg, tr')"
  shows "list_all (assembles world) (attach m)"
    and "maintype msg = maintype (wrapped_body m)" and "subtype msg = subtype (wrapped_body m)"
    and "cte msg = cte (wrapped_body m)" and "payload msg = payload (wrapped_body m)"
    and "parts msg = parts (wrapped_body m) @ map (part_of world) (attach m)"
proof -
  from compose_success [OF assms] obtain msg1 where
    1: "fst (attach_files world (attach m) (wrapped_body m) tr) = Inr msg1"
    and 2: "maintype msg = maintype msg1" "subtype msg = subtype msg1"
      "cte msg = cte msg1" "payload msg = payload msg1" "parts msg = parts msg1"
    by blast
  from 1 show a: "list_all (assembles world) (attach m)"
    by (rule attach_files_Inr_assembles)
  from 1 attach_files_success [OF a, of "wrapped_body m" tr]
  have "msg1 = foldl mime_attach (wrapped_body m) (map (part_of world) (attach m))" by simp
  with 2 show "maintype msg = maintype (wrapped_body m)" "subtype msg = subtype (wrapped_body m)"
    "cte msg = cte (wrapped_body m)" "payload msg = payload (wrapped_body m)"
    "parts msg = parts (wrapped_body m) @ map (part_of world) (attach m)"
    by (simp_all add: foldl_mime_attach_sel)
qed


subsection \<open>The checks of send\<close>

text \<open>
  Claim C1. Whatever the object and the environment, \<open>send\<close> raises \<open>MissingBody\<close>
  when neither body is set, also when the list \<open>to\<close> is empty as well, and raises
  \<open>MissingRecipient\<close> when a body is set and \<open>to\<close> is empty. In both cases the list
  of events is empty: no file has been looked at and the SMTP client has not been
  called; the result does not depend on the environment nor on the attachments.
\<close>

theorem send_precondition_checks:
  "(textBody m = None \<and> htmlBody m = None \<longrightarrow> send world m = (Inl MissingBody, [])) \<and>
   (\<not> (textBody m = None \<and> htmlBody m = None) \<and> to m = [] \<longrightarrow>
      send world m = (Inl MissingRecipient, []))"
  by (simp add: send_def io_bind_def compose_unfold)

theorem send_precondition_checks_witness:
  "textBody example_email = None \<and> htmlBody example_email = None \<and>
   send example_env example_email = (Inl MissingBody, []) \<and>
   \<not> (textBody (setTextBody example_email ''hello'') = None \<and>
      htmlBody (setTextBody example_email ''hello'') = None) \<and>
   to (setTextBody example_email ''hello'') = [] \<and>
   send example_env (setTextBody example_email ''hello'') = (Inl MissingRecipient, [])"
  using send_precondition_checks [of example_email example_env]
    send_precondition_checks [of "setTextBody example_email ''hello''" example_env]
  by (simp add: example_email_def Email_init_def clearRecipients_def clearAttachments_def
      setTextBody_def)


subsection \<open>The body of the message\<close>

lemma body_part_make_body:
  assumes "compose world m tr = (Inr msg, tr')"
  shows "maintype (body_part m msg) = maintype (make_body m) \<and>
         subtype (body_part m msg) = subtype (make_body m) \<and>
         payload (body_part m msg) = payload (make_body m) \<and>
         parts (body_part m msg) = parts (make_body m)"
  using compose_parts(2-6) [OF assms]
  by (simp add: body_part_def wrapped_body_def mime_sel MIMEMultipart_def)

lemmas email_defs = example_email_def ready_email_def text_email_def html_email_def
  both_email_def Email_init_def clearRecipients_def clearAttachments_def setTextBody_def

lemmas mime_defs = make_body_def MIMEText_def MIMEMultipart_def MIMEBase_def encode_7or8bit_def
  set_item_def

text \<open>
  Claim C3. In a message that \<open>send\<close> has composed and hands to the SMTP client, the
  body is a single text part of subtype \<open>plain\<close> holding the text body when only that
  one is set, a single text part of subtype \<open>html\<close> holding the HTML body when only
  that one is set, and when both are set a multipart container of subtype
  \<open>alternative\<close> whose parts are the plain part and then the HTML part.
\<close>

theorem send_body_part:
  assumes "compose world m [] = (Inr msg, tr)"
  shows "send world m = transmit world m (to m @ cc m @ bcc m) (as_string world msg) tr \<and>
    (textBody m \<noteq> None \<and> htmlBody m = None \<longrightarrow>
       maintype (body_part m msg) = ''text'' \<and> subtype (body_part m msg) = ''plain'' \<and>
       payload (body_part m msg) = textBody m \<and> parts (body_part m msg) = []) \<and>
    (textBody m = None \<and> htmlBody m \<noteq> None \<longrightarrow>
       maintype (body_part m msg) = ''text'' \<and> subtype (body_part m msg) = ''html'' \<and>
       payload (body_part m msg) = htmlBody m \<and> parts (body_part m msg) = []) \<and>
    (textBody m \<noteq> None \<and> htmlBody m \<noteq> None \<longrightarrow>
       maintype (body_part m msg) = ''multipart'' \<and>
       subtype (body_part m msg) = ''alternative'' \<and>
       map (\<lambda>p. (maintype p, subtype p, payload p, parts p)) (parts (body_part m msg)) =
         [(''text'', ''plain'', textBody m, []), (''text'', ''html'', htmlBody m, [])])"
  using body_part_make_body [OF assms] send_composed [OF assms]
  by (auto simp: mime_defs)


lemmas message_defs = text_message_def html_message_def both_message_def header_of_examples_def

theorem send_body_part_witness:
  "compose example_env text_email [] = (Inr text_message, []) \<and>
   textBody text_email \<noteq> None \<and> htmlBody text_email = None \<and>
   maintype (body_part text_email text_message) = ''text'' \<and>
   subtype (body_part text_email text_message) = ''plain'' \<and>
   payload (body_part text_email text_message) = Some ''hello'' \<and>
   compose example_env html_email [] = (Inr html_message, []) \<and>
   textBody html_email = None \<and> htmlBody html_email \<noteq> None \<and>
   maintype (body_part html_email html_message) = ''text'' \<and>
   subtype (body_part html_email html_message) = ''html'' \<and>
   payload (body_part html_email html_message) = Some ''<b>hello</b>'' \<and>
   compose example_env both_email [] = (Inr both_message, []) \<and>
   textBody both_email \<noteq> None \<and> htmlBody both_email \<noteq> None \<and>
   subtype (body_part both_email both_message) = ''alternative'' \<and>
   map (\<lambda>p. (maintype p, subtype p, payload p, parts p))
     (parts (body_part both_email both_message)) =
     [(''text'', ''plain'', Some ''hello'', []), (''text'', ''html'', Some ''<b>hello</b>'', [])]"
proof -
  have 1: "compose example_env text_email [] = (Inr text_message, [])"
    by (simp add: compose_unfold email_defs mime_defs wrapped_body_def io_return_def
        message_defs)
  have 2: "compose example_env html_email [] = (Inr html_message, [])"
    by (simp add: compose_unfold email_defs mime_defs wrapped_body_def io_return_def
        message_defs)
  have 3: "compose example_env both_email [] = (Inr both_message, [])"
    by (simp add: compose_unfold email_defs mime_defs wrapped_body_def io_return_def
        message_defs)
  have t: "textBody text_email = Some ''hello''" "htmlBody text_email = None"
    "textBody html_email = None" "htmlBody html_email = Some ''<b>hello</b>''"
    "textBody both_email = Some ''hello''" "htmlBody both_email = Some ''<b>hello</b>''"
    by (simp_all add: email_defs)
  show ?thesis
    using send_body_part [OF 1] send_body_part [OF 2] send_body_part [OF 3]
    by (simp add: 1 2 3 t)
qed

subsection \<open>The parts of the attachments\<close>

lemma split_octet_stream:
  "split_once (CHR ''/'') ''application/octet-stream'' = Some (''application'', ''octet-stream'')"
  by simp

lemma part_of_headers:
  assumes "assembles world (f, n)"
  shows "headers (part_of world (f, n)) =
           [(''Content-Disposition'', ''attachment'',
             [(''filename'', case n of None \<Rightarrow> basename f | Some name \<Rightarrow> name)])]"
  using assms
  by (auto simp: assembles_def part_of_def make_attachment_unfold read_part_unfold
      add_header_sel MIMEText_def MIMEImage_def MIMEAudio_def MIMEBase_def
      split: option.splits prod.splits sum.splits if_splits)

lemma part_of_binary:
  assumes "assembles world (f, n)"
    and "fst (guess_type world f) = None \<or> snd (guess_type world f) \<noteq> None"
  shows "maintype (part_of world (f, n)) = ''application'' \<and>
         subtype (part_of world (f, n)) = ''octet-stream'' \<and>
         cte (part_of world (f, n)) = Some Base64 \<and>
         (\<exists>data. read_file world f True = Inr data \<and> payload (part_of world (f, n)) = Some data)"
proof -
  have c: "guess_ctype world f = ''application/octet-stream''"
    using assms(2) by (auto simp: guess_ctype_def split: prod.splits option.splits)
  show ?thesis
    using assms(1)
    by (auto simp: assembles_def part_of_def make_attachment_unfold read_part_unfold c
        split_octet_stream add_header_sel MIMEBase_def
        simp del: split_once.simps split: sum.splits if_splits)
qed

text \<open>
  Claim C6. In a message that \<open>send\<close> has composed and hands to the SMTP client, the
  container holds the body and then one part for each attachment, in order. Each of
  these parts has the header \<open>Content-Disposition: attachment\<close> with the display name
  as file name when one was given and the base name of the path otherwise. When the type
  of the file is not guessed, or is guessed with a content encoding, the part has the
  type \<open>application/octet-stream\<close>, holds the bytes of the file and is encoded in
  Base64 by the call of \<open>encode_base64\<close>.
\<close>

theorem send_attachment_parts:
  assumes "compose world m [] = (Inr msg, tr)"
    and "i < length (attach m)" and "attach m ! i = (fname, attachname)"
  shows "send world m = transmit world m (to m @ cc m @ bcc m) (as_string world msg) tr \<and>
    length (parts msg) = Suc (length (attach m)) \<and>
    headers (parts msg ! Suc i) =
      [(''Content-Disposition'', ''attachment'',
        [(''filename'', case attachname of None \<Rightarrow> basename fname | Some name \<Rightarrow> name)])] \<and>
    (fst (guess_type world fname) = None \<or> snd (guess_type world fname) \<noteq> None \<longrightarrow>
       maintype (parts msg ! Suc i) = ''application'' \<and>
       subtype (parts msg ! Suc i) = ''octet-stream'' \<and>
       cte (parts msg ! Suc i) = Some Base64 \<and>
       (\<exists>data. read_file world fname True = Inr data \<and>
          payload (parts msg ! Suc i) = Some data))"
proof -
  from assms(2) have ne: "attach m \<noteq> []" by auto
  have all: "list_all (assembles world) (attach m)"
    by (rule compose_parts(1) [OF assms(1)])
  with assms(2,3) have a: "assembles world (fname, attachname)"
    by (metis list_all_length)
  have "parts msg = make_body m # map (part_of world) (attach m)"
    using compose_parts(6) [OF assms(1)] ne
    by (simp add: wrapped_body_def mime_sel MIMEMultipart_def)
  then have p: "length (parts msg) = Suc (length (attach m))"
    "parts msg ! Suc i = part_of world (fname, attachname)"
    using assms(2,3) by simp_all
  show ?thesis
    using send_composed [OF assms(1)] part_of_headers [OF a] part_of_binary [OF a]
    by (simp add: p)
qed

theorem send_attachment_parts_witness:
  "compose example_env attached_email [] = (Inr attached_message, attachment_events) \<and>
   attach attached_email ! 0 = (''/tmp/report.bin'', None) \<and>
   attach attached_email ! Suc 0 = (''/tmp/report.bin'', Some ''r.dat'') \<and>
   fst (guess_type example_env ''/tmp/report.bin'') = None \<and>
   headers (parts attached_message ! Suc 0) =
     [(''Content-Disposition'', ''attachment'', [(''filename'', ''report.bin'')])] \<and>
   headers (parts attached_message ! Suc (Suc 0)) =
     [(''Content-Disposition'', ''attachment'', [(''filename'', ''r.dat'')])] \<and>
   maintype (parts attached_message ! Suc 0) = ''application'' \<and>
   subtype (parts attached_message ! Suc 0) = ''octet-stream'' \<and>
   cte (parts attached_message ! Suc 0) = Some Base64 \<and>
   read_file example_env ''/tmp/report.bin'' True = Inr ''data'' \<and>
   payload (parts attached_message ! Suc 0) = Some ''data''"
proof -
  have 1: "compose example_env attached_email [] = (Inr attached_message, attachment_events)"
    by (simp add: compose_unfold email_defs mime_defs wrapped_body_def io_return_def
        io_bind_def io_raise_def message_defs attached_email_def attached_message_def
        attachment_events_def make_attachment_def example_env_def os_path_exists_def
        os_path_isfile_def open_read_def basename_def guess_ctype_def read_part_def)
  have 2: "0 < length (attach attached_email)" "Suc 0 < length (attach attached_email)"
    "attach attached_email ! 0 = (''/tmp/report.bin'', None)"
    "attach attached_email ! Suc 0 = (''/tmp/report.bin'', Some ''r.dat'')"
    by (simp_all add: attached_email_def)
  have 3: "basename ''/tmp/report.bin'' = ''report.bin''" by (simp add: basename_def)
  have 4: "guess_type example_env ''/tmp/report.bin'' = (None, None)"
    "read_file example_env ''/tmp/report.bin'' True = Inr ''data''"
    by (simp_all add: example_env_def)
  show ?thesis
    using send_attachment_parts [OF 1 2(1) 2(3)] send_attachment_parts [OF 1 2(2) 2(4)]
    by (simp add: 1 2 3 4)
qed


subsection \<open>Attachments that cannot be attached\<close>

lemma bad_attachment_compose_fails:
  assumes "(f, n) \<in> set (attach m)" "\<not> path_exists world f \<or> \<not> path_isfile world f"
  shows "\<exists>e. fst (compose world m []) = Inl e"
proof (cases "fst (compose world m [])")
  case (Inl e)
  then show ?thesis by blast
next
  case (Inr msg)
  then have "compose world m [] = (Inr msg, snd (compose world m []))"
    by (cases "compose world m []") simp
  then have "list_all (assembles world) (attach m)"
    by (rule compose_parts(1))
  with assms(1) have "assembles world (f, n)"
    by (simp add: list_all_iff)
  with assms(2) show ?thesis
    using assembles_exists by blast
qed

lemma first_bad_attachment:
  assumes "\<not> (textBody m = None \<and> htmlBody m = None)" "to m \<noteq> []"
    and "attach m = pre @ (f, n) # post" "list_all (assembles world) pre"
    and "\<not> path_exists world f \<or> \<not> path_isfile world f"
  shows "fst (send world m) =
           Inl (if \<not> path_exists world f then AttachmentNotFound f else AttachmentNotAFile f)"
proof -
  let ?e = "if \<not> path_exists world f then AttachmentNotFound f else AttachmentNotAFile f"
  have "fst (make_attachment world f n []) = Inl ?e"
    using assms(5) by (subst make_attachment_checks) auto
  then have "fst (attach_files world (attach m) (wrapped_body m) []) = Inl ?e"
    unfolding assms(3) by (rule attach_files_failure [OF assms(4)])
  then have "fst (compose world m []) = Inl ?e"
    using compose_attach_error [OF assms(1,2)] by simp
  then show ?thesis
    by (simp add: send_compose_error)
qed

text \<open>
  Claim C5 says that \<open>send\<close> raises \<open>AttachmentNotFound\<close> whenever the path of an
  added attachment does not exist. The attachments are checked in order and the checks of
  the body and of the recipients come first: with a directory added before the missing
  path the error is \<open>AttachmentNotAFile\<close> for the directory, and with no body it is
  \<open>MissingBody\<close>.
\<close>

theorem missing_attachment_error_counterexample:
  "\<not> path_exists example_env ''/nonexistent/path'' \<and>
   send example_env (ready_email\<lparr>attach := [(''/tmp'', None), (''/nonexistent/path'', None)]\<rparr>) =
     (Inl (AttachmentNotAFile ''/tmp''), [Exists ''/tmp'', IsFile ''/tmp'']) \<and>
   send example_env (example_email\<lparr>attach := [(''/nonexistent/path'', None)]\<rparr>) =
     (Inl MissingBody, [])"
  by (simp add: send_def io_bind_def compose_unfold email_defs wrapped_body_def
      make_attachment_unfold example_env_def)

text \<open>
  Claim C5, amended. When an added attachment has a path that does not exist or that is
  not a regular file at the time of \<open>send\<close>, \<open>send\<close> raises an error, no SMTP
  connection is opened and the message is not submitted. When a body and a recipient are
  set and the attachments before it have been attached, the error is
  \<open>AttachmentNotFound\<close> for a path that does not exist and \<open>AttachmentNotAFile\<close>
  for one that exists and is not a regular file. \<open>addAttachment\<close> checks nothing: it
  appends the path whether it exists or not.
\<close>

theorem missing_attachment_aborts_send:
  assumes "(f, n) \<in> set (attach m)"
    and "\<not> path_exists world f \<or> \<not> path_isfile world f"
  shows "(\<exists>e. fst (send world m) = Inl e) \<and>
    list_all (\<lambda>ev. \<not> is_smtp ev) (snd (send world m)) \<and>
    (\<not> (textBody m = None \<and> htmlBody m = None) \<and> to m \<noteq> [] \<and>
     attach m = pre @ (f, n) # post \<and> list_all (assembles world) pre \<longrightarrow>
       fst (send world m) =
         Inl (if \<not> path_exists world f then AttachmentNotFound f else AttachmentNotAFile f)) \<and>
    attach (addAttachment m' (Some f) n) = attach m' @ [(f, n)]"
proof -
  from bad_attachment_compose_fails [OF assms] obtain e where
    e: "fst (compose world m []) = Inl e" by blast
  then have s: "send world m = (Inl e, snd (compose world m []))"
    by (rule send_compose_error)
  show ?thesis
    using s compose_no_smtp [of world m] first_bad_attachment [of m pre f n post world] assms(2)
    by (simp add: addAttachment_def)
qed

theorem missing_attachment_aborts_send_witness:
  "\<not> path_exists example_env ''/nonexistent/path'' \<and>
   send example_env (addAttachment ready_email (Some ''/nonexistent/path'') None) =
     (Inl (AttachmentNotFound ''/nonexistent/path''), [Exists ''/nonexistent/path'']) \<and>
   path_exists example_env ''/tmp'' \<and> \<not> path_isfile example_env ''/tmp'' \<and>
   fst (send example_env (addAttachment ready_email (Some ''/tmp'') None)) =
     Inl (AttachmentNotAFile ''/tmp'')"
proof -
  let ?m1 = "addAttachment ready_email (Some ''/nonexistent/path'') None"
  let ?m2 = "addAttachment ready_email (Some ''/tmp'') None"
  have 1: "(''/nonexistent/path'', None) \<in> set (attach ?m1)"
    "\<not> path_exists example_env ''/nonexistent/path'' \<or> \<not> path_isfile example_env ''/nonexistent/path''"
    "\<not> (textBody ?m1 = None \<and> htmlBody ?m1 = None)" "to ?m1 \<noteq> []"
    "attach ?m1 = [] @ (''/nonexistent/path'', None) # []"
    by (simp_all add: addAttachment_def email_defs example_env_def)
  have 2: "(''/tmp'', None) \<in> set (attach ?m2)"
    "\<not> path_exists example_env ''/tmp'' \<or> \<not> path_isfile example_env ''/tmp''"
    "\<not> (textBody ?m2 = None \<and> htmlBody ?m2 = None)" "to ?m2 \<noteq> []"
    "attach ?m2 = [] @ (''/tmp'', None) # []"
    by (simp_all add: addAttachment_def email_defs example_env_def)
  have 3: "snd (send example_env ?m1) = [Exists ''/nonexistent/path'']"
    by (simp add: send_def io_bind_def compose_unfold email_defs wrapped_body_def
        make_attachment_unfold example_env_def addAttachment_def)
  have 4: "\<not> path_exists example_env ''/nonexistent/path''" "path_exists example_env ''/tmp''"
    "\<not> path_isfile example_env ''/tmp''"
    by (simp_all add: example_env_def)
  show ?thesis
    using missing_attachment_aborts_send [OF 1(1,2), of "[]" "[]"]
      missing_attachment_aborts_send [OF 2(1,2), of "[]" "[]"] 1(3-5) 2(3-5) 3 4
    by (simp add: prod_eq_iff)
qed

subsection \<open>Sending without a sender\<close>

text \<open>
  Claim C10 says that without a sender, with a body and a recipient, \<open>send\<close> completes
  the attachments and then fails with an attribute error. It does so only when every
  attachment can be attached: with a missing file the loop over the attachments raises
  \<open>AttachmentNotFound\<close> before the header is reached.
\<close>

theorem send_without_from_counterexample:
  "from ready_email = None \<and> textBody ready_email \<noteq> None \<and> to ready_email \<noteq> [] \<and>
   send example_env (ready_email\<lparr>attach := [(''/nonexistent/path'', None)]\<rparr>) =
     (Inl (AttachmentNotFound ''/nonexistent/path''), [Exists ''/nonexistent/path''])"
  by (simp add: send_def io_bind_def compose_unfold email_defs wrapped_body_def
      make_attachment_unfold example_env_def)

text \<open>
  Claim C10, amended. When \<open>setFrom\<close> has never succeeded, a body is set, \<open>to\<close> is
  not empty and every attachment can be attached (there may be none), \<open>send\<close> passes
  both checks, runs the loop over the attachments to its end, and then fails where the
  header reads the sender, with the attribute error of the interpreter, which is none of
  the errors that Email.py raises itself. The events are those of the loop: no SMTP
  connection is opened.
\<close>

theorem send_without_from:
  assumes "from m = None" and "\<not> (textBody m = None \<and> htmlBody m = None)" and "to m \<noteq> []"
    and "list_all (assembles world) (attach m)"
  shows "fst (attach_files world (attach m) (wrapped_body m) []) =
           Inr (foldl mime_attach (wrapped_body m) (map (part_of world) (attach m))) \<and>
         send world m =
           (Inl (AttributeError ''_from''),
            snd (attach_files world (attach m) (wrapped_body m) [])) \<and>
         list_all (\<lambda>ev. \<not> is_smtp ev) (snd (send world m)) \<and>
         fst (send world m) \<notin>
           {Inl MissingBody, Inl MissingRecipient, Inl (AttachmentNotFound a),
            Inl (AttachmentNotAFile a), Inl (InvalidAddress kind a)}"
proof -
  have 1: "fst (attach_files world (attach m) (wrapped_body m) []) =
           Inr (foldl mime_attach (wrapped_body m) (map (part_of world) (attach m)))"
    by (rule attach_files_success [OF assms(4)])
  have 2: "compose world m [] =
           (Inl (AttributeError ''_from''),
            snd (attach_files world (attach m) (wrapped_body m) []))"
    by (rule compose_no_from [OF assms(2,3) 1 assms(1)])
  then have 3: "send world m =
           (Inl (AttributeError ''_from''),
            snd (attach_files world (attach m) (wrapped_body m) []))"
    using send_compose_error [of world m "AttributeError ''_from''"] by simp
  show ?thesis
    using 1 3 compose_no_smtp [of world m] 2 by simp
qed

theorem send_without_from_witness:
  "from ready_email = None \<and> \<not> (textBody ready_email = None \<and> htmlBody ready_email = None) \<and>
   to ready_email \<noteq> [] \<and>
   list_all (assembles example_env) (attach (ready_email\<lparr>attach := [(''/tmp/report.bin'', None)]\<rparr>)) \<and>
   send example_env (ready_email\<lparr>attach := [(''/tmp/report.bin'', None)]\<rparr>) =
     (Inl (AttributeError ''_from''),
      [Exists ''/tmp/report.bin'', IsFile ''/tmp/report.bin'', Open ''/tmp/report.bin'' True])"
proof -
  let ?m = "ready_email\<lparr>attach := [(''/tmp/report.bin'', None)]\<rparr>"
  have 1: "from ?m = None" "\<not> (textBody ?m = None \<and> htmlBody ?m = None)" "to ?m \<noteq> []"
    by (simp_all add: email_defs)
  have 2: "list_all (assembles example_env) (attach ?m)"
    by (simp add: assembles_def make_attachment_unfold read_part_unfold guess_ctype_def
        example_env_def)
  have 3: "snd (attach_files example_env (attach ?m) (wrapped_body ?m) []) =
      [Exists ''/tmp/report.bin'', IsFile ''/tmp/report.bin'', Open ''/tmp/report.bin'' True]"
    by (simp add: io_bind_def io_return_def make_attachment_unfold read_part_unfold
        guess_ctype_def example_env_def)
  show ?thesis
    using send_without_from [OF 1 2] 1 2 3 by (simp add: email_defs)
qed

end
